theory Spec2Isabelle
  imports Main "HOL-Library.Word" "HOL-Library.Sublist"
begin

unbundle bit_operations_syntax

text \<open>
  A model of the AgeGate browser integration: the policy helpers
  (\<^verbatim>\<open>src/internal/policy.js\<close>, here \<^verbatim>\<open>src/unnamed/part_001\<close>), the token decoder
  (\<^verbatim>\<open>src/src/internal/token.js\<close>), the encoders of its tests
  (\<^verbatim>\<open>tests/token.test.js\<close>, here \<^verbatim>\<open>src/unnamed/part_000\<close>) and the handshake of
  \<^verbatim>\<open>launchAgeGate\<close> (\<^verbatim>\<open>src/agegate.js\<close>, here lines 88 to 449 of
  \<^verbatim>\<open>src/tests/policy.test.js\<close>).  Every function keeps its name; an exception is a
  result \<open>Inl\<close>; what the browser provides (decoders, URL parser, randomness, the popup,
  the timers) is a parameter or an event.
\<close>

section \<open>JavaScript values\<close>

text \<open>
  A JavaScript string is a sequence of 16-bit code units; \<open>length\<close> is the
  \<^verbatim>\<open>.length\<close> of the source.  \<open>js\<close> writes an ASCII literal as such a string.
\<close>

type_synonym jsstring = "16 word list"

type_synonym byte = "8 word"

definition js :: "string \<Rightarrow> jsstring" where
  "js s = map (\<lambda>c. of_nat (of_char c)) s"

text \<open>
  The values that reach the code from outside (message data, configuration, arguments
  typed \<^verbatim>\<open>unknown\<close>).  An object is the list of its own properties; numbers are
  integers here, which is all the code under study distinguishes about them.
\<close>

datatype jsval =
    JUndefined
  | JNull
  | JBool bool
  | JNum int
  | JStr jsstring
  | JArr "jsval list"
  | JObj "(jsstring \<times> jsval) list"

text \<open>\<^verbatim>\<open>typeof v === 'object'\<close> together with truthiness: objects and arrays, not null.\<close>

fun is_object :: "jsval \<Rightarrow> bool" where
  "is_object (JObj _) = True"
| "is_object (JArr _) = True"
| "is_object _ = False"

text \<open>
  Property read \<^verbatim>\<open>v.k\<close> for the keys the code reads (\<^verbatim>\<open>token\<close>, \<^verbatim>\<open>session\<close>,
  \<^verbatim>\<open>authenticationResponse\<close>): a property of an object, and \<^verbatim>\<open>undefined\<close> on every
  other value.  An array here carries its elements only, no named properties.
\<close>

fun get_prop :: "jsval \<Rightarrow> jsstring \<Rightarrow> jsval" where
  "get_prop (JObj fs) k = (case map_of fs k of Some v \<Rightarrow> v | None \<Rightarrow> JUndefined)"
| "get_prop _ k = JUndefined"

text \<open>
  \<^verbatim>\<open>String.prototype.trim\<close>: strips WhiteSpace and LineTerminator code units from
  both ends.
\<close>

definition is_js_space :: "16 word \<Rightarrow> bool" where
  "is_js_space c \<longleftrightarrow>
     (0x09 \<le> c \<and> c \<le> 0x0D) \<or> c = 0x20 \<or> c = 0xA0 \<or> c = 0x1680 \<or>
     (0x2000 \<le> c \<and> c \<le> 0x200A) \<or> c = 0x2028 \<or> c = 0x2029 \<or> c = 0x202F \<or>
     c = 0x205F \<or> c = 0x3000 \<or> c = 0xFEFF"

definition trim :: "jsstring \<Rightarrow> jsstring" where
  "trim s = rev (dropWhile is_js_space (rev (dropWhile is_js_space s)))"

section \<open>Policy helpers (internal/policy.js)\<close>

subsection \<open>UUID_RE and isUuid\<close>

text \<open>
  \<^verbatim>\<open>/^[0-9a-f]{8}-[0-9a-f]{4}-[1-5][0-9a-f]{3}-[89ab][0-9a-f]{3}-[0-9a-f]{12}$/i\<close>:
  a fixed-length pattern, one character class per position.  With the \<^verbatim>\<open>i\<close> flag
  (and no \<^verbatim>\<open>u\<close> flag) the letter classes also match the upper-case ASCII letters
  and nothing else.
\<close>

datatype cclass = HexDigit | Dash | Version | Variant

definition is_hex_digit :: "16 word \<Rightarrow> bool" where
  "is_hex_digit c \<longleftrightarrow>
     (0x30 \<le> c \<and> c \<le> 0x39) \<or> (0x61 \<le> c \<and> c \<le> 0x66) \<or> (0x41 \<le> c \<and> c \<le> 0x46)"

fun class_matches :: "cclass \<Rightarrow> 16 word \<Rightarrow> bool" where
  "class_matches HexDigit c = is_hex_digit c"
| "class_matches Dash c = (c = 0x2D)"
| "class_matches Version c = (0x31 \<le> c \<and> c \<le> 0x35)"
| "class_matches Variant c =
     (c = 0x38 \<or> c = 0x39 \<or> c = 0x61 \<or> c = 0x62 \<or> c = 0x41 \<or> c = 0x42)"

definition UUID_RE :: "cclass list" where
  "UUID_RE =
     replicate 8 HexDigit @ [Dash] @ replicate 4 HexDigit @ [Dash] @
     [Version] @ replicate 3 HexDigit @ [Dash] @
     [Variant] @ replicate 3 HexDigit @ [Dash] @ replicate 12 HexDigit"

definition isUuid :: "jsstring \<Rightarrow> bool" where
  "isUuid v \<longleftrightarrow> list_all2 class_matches UUID_RE v"

subsection \<open>DEFAULT\_LIMITS and per-call overrides\<close>

record policy_limits =
  maxSessionLen :: nat
  maxIncludeItems :: nat
  maxIncludeItemLen :: nat

text \<open>The optional \<^verbatim>\<open>limits\<close> argument: each field may be absent.\<close>

record policy_limits_partial =
  maxSessionLen_opt :: "nat option"
  maxIncludeItems_opt :: "nat option"
  maxIncludeItemLen_opt :: "nat option"

definition POLICY_DEFAULT_LIMITS :: policy_limits where
  "POLICY_DEFAULT_LIMITS =
     \<lparr> maxSessionLen = 64, maxIncludeItems = 8, maxIncludeItemLen = 32 \<rparr>"

definition no_policy_limits :: policy_limits_partial where
  "no_policy_limits =
     \<lparr> maxSessionLen_opt = None, maxIncludeItems_opt = None, maxIncludeItemLen_opt = None \<rparr>"

text \<open>\<^verbatim>\<open>{ ...DEFAULT_LIMITS, ...(limits ?? {}) }\<close>\<close>

definition policy_lim :: "policy_limits_partial \<Rightarrow> policy_limits" where
  "policy_lim l =
     \<lparr> maxSessionLen = (case maxSessionLen_opt l of Some n \<Rightarrow> n
                          | None \<Rightarrow> maxSessionLen POLICY_DEFAULT_LIMITS),
       maxIncludeItems = (case maxIncludeItems_opt l of Some n \<Rightarrow> n
                          | None \<Rightarrow> maxIncludeItems POLICY_DEFAULT_LIMITS),
       maxIncludeItemLen = (case maxIncludeItemLen_opt l of Some n \<Rightarrow> n
                          | None \<Rightarrow> maxIncludeItemLen POLICY_DEFAULT_LIMITS) \<rparr>"

subsection \<open>randomUuid\<close>

text \<open>
  The host's \<^verbatim>\<open>globalThis.crypto\<close>: what \<^verbatim>\<open>randomUUID()\<close> returns when that
  function exists, and the bytes \<^verbatim>\<open>getRandomValues\<close> writes (by index) when that
  function exists.
\<close>

record crypto_env =
  crypto_randomUUID :: "jsstring option"
  crypto_getRandomValues :: "(nat \<Rightarrow> byte) option"

datatype policy_error =
    CryptoRequired
  | PageHrefRequired
  | PageOriginRequired
  | InvalidUrl
  | SameOriginByDefault
  | OriginNotAllowed
  | MustBeHttps
  | ProtocolMismatch

text \<open>\<^verbatim>\<open>x.toString(16).padStart(2, '0')\<close> for a byte.\<close>

definition hex_digit_lower :: "nat \<Rightarrow> 16 word" where
  "hex_digit_lower d = (if d < 10 then 0x30 + of_nat d else 0x61 + of_nat (d - 10))"

definition byte_to_hex2 :: "byte \<Rightarrow> jsstring" where
  "byte_to_hex2 x = [hex_digit_lower (unat x div 16), hex_digit_lower (unat x mod 16)]"

definition randomUuid :: "crypto_env \<Rightarrow> policy_error + jsstring" where
  "randomUuid env =
     (case crypto_randomUUID env of
        Some u \<Rightarrow> Inr u
      | None \<Rightarrow>
         (case crypto_getRandomValues env of
            None \<Rightarrow> Inl CryptoRequired
          | Some rnd \<Rightarrow>
             (let b0 = map rnd [0..<16];
                  b1 = b0[6 := ((b0 ! 6) AND 0x0f) OR 0x40];
                  b2 = b1[8 := ((b1 ! 8) AND 0x3f) OR 0x80];
                  hex = concat (map byte_to_hex2 b2)
              in Inr (take 8 hex @ js ''-'' @ take 4 (drop 8 hex) @ js ''-'' @
                      take 4 (drop 12 hex) @ js ''-'' @ take 4 (drop 16 hex) @ js ''-'' @
                      drop 20 hex))))"

subsection \<open>normalizeSession\<close>

definition normalizeSession ::
  "crypto_env \<Rightarrow> jsval \<Rightarrow> policy_limits_partial \<Rightarrow> policy_error + jsstring" where
  "normalizeSession env v limits =
     (let lim = policy_lim limits in
      case v of
        JStr t \<Rightarrow>
          (let s = trim t in
           if length s = 0 \<or> length s > maxSessionLen lim then randomUuid env
           else if \<not> isUuid s then randomUuid env
           else Inr s)
      | _ \<Rightarrow> randomUuid env)"

subsection \<open>sanitizeInclude\<close>

text \<open>
  The \<^verbatim>\<open>for (const item of v)\<close> loop with its accumulator \<^verbatim>\<open>out\<close>: \<^verbatim>\<open>break\<close> returns
  the accumulator, \<^verbatim>\<open>continue\<close> goes on with it unchanged.
\<close>

fun sanitize_loop :: "policy_limits \<Rightarrow> jsval list \<Rightarrow> jsstring list \<Rightarrow> jsstring list" where
  "sanitize_loop lim [] out = out"
| "sanitize_loop lim (item # rest) out =
     (if length out \<ge> maxIncludeItems lim then out
      else case item of
        JStr t \<Rightarrow>
          (let s = trim t in
           if length s = 0 \<or> length s > maxIncludeItemLen lim then sanitize_loop lim rest out
           else if s \<notin> set out then sanitize_loop lim rest (out @ [s])
           else sanitize_loop lim rest out)
      | _ \<Rightarrow> sanitize_loop lim rest out)"

definition sanitizeInclude :: "jsval \<Rightarrow> policy_limits_partial \<Rightarrow> jsstring list option" where
  "sanitizeInclude v limits =
     (let lim = policy_lim limits in
      case v of
        JArr items \<Rightarrow>
          (let out = sanitize_loop lim items [] in
           if length out > 0 then Some out else None)
      | _ \<Rightarrow> None)"

text \<open>
  What the specification says of the result, written independently of the loop: the
  string entries, trimmed; empty and over-length ones dropped; first occurrences kept in
  order; cut after the item bound; \<open>None\<close> (undefined) when nothing is left.
\<close>

fun string_entries :: "jsval list \<Rightarrow> jsstring list" where
  "string_entries [] = []"
| "string_entries (JStr t # rest) = t # string_entries rest"
| "string_entries (_ # rest) = string_entries rest"

definition first_occurrences :: "'a list \<Rightarrow> 'a list" where
  "first_occurrences xs = rev (remdups (rev xs))"

definition include_candidates :: "policy_limits \<Rightarrow> jsval list \<Rightarrow> jsstring list" where
  "include_candidates lim items =
     filter (\<lambda>s. length s \<noteq> 0 \<and> length s \<le> maxIncludeItemLen lim)
       (map trim (string_entries items))"

definition sanitizeInclude_spec :: "jsval \<Rightarrow> policy_limits_partial \<Rightarrow> jsstring list option" where
  "sanitizeInclude_spec v limits =
     (case v of
        JArr items \<Rightarrow>
          (let out = take (maxIncludeItems (policy_lim limits))
                       (first_occurrences (include_candidates (policy_lim limits) items))
           in if out = [] then None else Some out)
      | _ \<Rightarrow> None)"

section \<open>Host functions the code calls\<close>

text \<open>
  The code runs in a browser or in Node and asks the host at run time which decoders it
  offers.  What the host offers is a parameter of the model:
  \<^item> \<open>host_atob\<close>: \<^verbatim>\<open>globalThis.atob\<close> when it is a function; it returns a binary
    string or throws (\<open>None\<close>);
  \<^item> \<open>host_Buffer\<close>: the Node \<^verbatim>\<open>Buffer\<close> global when defined, with its lenient base64
    decoder and its UTF-8 \<^verbatim>\<open>toString\<close>;
  \<^item> \<open>host_TextDecoder\<close>: \<^verbatim>\<open>new TextDecoder().decode(bytes)\<close>;
  \<^item> \<open>pako_ungzip\<close>: \<^verbatim>\<open>pako.ungzip(gz, { to: 'string' })\<close> of the bundled third-party
    library; it returns the inflated string or throws (\<open>None\<close>).
\<close>

record node_buffer =
  buf_from_base64 :: "jsstring \<Rightarrow> byte list"
  buf_utf8_toString :: "byte list \<Rightarrow> jsstring"

record host =
  host_atob :: "(jsstring \<Rightarrow> jsstring option) option"
  host_Buffer :: "node_buffer option"
  host_TextDecoder :: "byte list \<Rightarrow> jsstring"
  pako_ungzip :: "byte list \<Rightarrow> jsstring option"

subsection \<open>The standard base64 functions\<close>

text \<open>
  The base64 alphabet of RFC 4648: index of a code unit, and code unit of an index.
\<close>

definition b64_index :: "16 word \<Rightarrow> nat option" where
  "b64_index c =
     (if 0x41 \<le> c \<and> c \<le> 0x5A then Some (unat c - 0x41)
      else if 0x61 \<le> c \<and> c \<le> 0x7A then Some (unat c - 0x61 + 26)
      else if 0x30 \<le> c \<and> c \<le> 0x39 then Some (unat c - 0x30 + 52)
      else if c = 0x2B then Some 62
      else if c = 0x2F then Some 63
      else None)"

definition b64_char :: "nat \<Rightarrow> 16 word" where
  "b64_char n =
     (if n < 26 then of_nat (n + 0x41)
      else if n < 52 then of_nat (n - 26 + 0x61)
      else if n < 62 then of_nat (n - 52 + 0x30)
      else if n = 62 then 0x2B
      else 0x2F)"

text \<open>
  Groups of four 6-bit values give three bytes; a final group of two or three values
  gives one or two bytes, the left-over bits being discarded.
\<close>

fun sextets_to_bytes :: "nat list \<Rightarrow> nat list" where
  "sextets_to_bytes (a # b # c # d # rest) =
     (a * 4 + b div 16) # ((b mod 16) * 16 + c div 4) # ((c mod 4) * 64 + d) #
     sextets_to_bytes rest"
| "sextets_to_bytes [a, b, c] = [a * 4 + b div 16, (b mod 16) * 16 + c div 4]"
| "sextets_to_bytes [a, b] = [a * 4 + b div 16]"
| "sextets_to_bytes _ = []"

fun bytes_to_sextets :: "nat list \<Rightarrow> nat list" where
  "bytes_to_sextets (x # y # z # rest) =
     (x div 4) # ((x mod 4) * 16 + y div 16) # ((y mod 16) * 4 + z div 64) # (z mod 64) #
     bytes_to_sextets rest"
| "bytes_to_sextets [x, y] = [x div 4, (x mod 4) * 16 + y div 16, (y mod 16) * 4]"
| "bytes_to_sextets [x] = [x div 4, (x mod 4) * 16]"
| "bytes_to_sextets [] = []"

definition is_ascii_whitespace :: "16 word \<Rightarrow> bool" where
  "is_ascii_whitespace c \<longleftrightarrow> c = 0x09 \<or> c = 0x0A \<or> c = 0x0C \<or> c = 0x0D \<or> c = 0x20"

text \<open>
  \<^verbatim>\<open>atob\<close> as the HTML standard defines it (forgiving-base64 decode): strip ASCII
  whitespace; when the length is a multiple of four, remove one or two trailing
  \<^verbatim>\<open>=\<close>; fail on a length of remainder one and on any code unit outside the alphabet;
  decode.  The result is a binary string, one code unit per byte.
\<close>

definition strip_b64_padding :: "jsstring \<Rightarrow> jsstring" where
  "strip_b64_padding d =
     (if length d mod 4 = 0 then
        (if 2 \<le> length d \<and> drop (length d - 2) d = [0x3D, 0x3D] then take (length d - 2) d
         else if 1 \<le> length d \<and> drop (length d - 1) d = [0x3D] then take (length d - 1) d
         else d)
      else d)"

definition atob :: "jsstring \<Rightarrow> jsstring option" where
  "atob data =
     (let d = strip_b64_padding (filter (\<lambda>c. \<not> is_ascii_whitespace c) data) in
      if length d mod 4 = 1 then None
      else if \<not> list_all (\<lambda>c. b64_index c \<noteq> None) d then None
      else Some (map of_nat (sextets_to_bytes (map (\<lambda>c. the (b64_index c)) d))))"

text \<open>
  \<^verbatim>\<open>Buffer.from(bytes).toString('base64')\<close>: RFC 4648 base64, the characters of the
  6-bit groups followed by the padding.
\<close>

definition b64_body :: "byte list \<Rightarrow> jsstring" where
  "b64_body bs = map b64_char (bytes_to_sextets (map unat bs))"

definition base64_encode :: "byte list \<Rightarrow> jsstring" where
  "base64_encode bs = b64_body bs @ replicate ((3 - length bs mod 3) mod 3) 0x3D"

section \<open>Token decoding (internal/token.js)\<close>

text \<open>
  The value of a limit.  The \<^verbatim>\<open>limits\<close> argument has the type
  \<^verbatim>\<open>Partial<typeof DEFAULT_LIMITS>\<close>: each property is absent, or present with the value
  \<^verbatim>\<open>undefined\<close> or with a number, which may be \<^verbatim>\<open>NaN\<close> or infinite.  The code
  does one thing with a limit, it compares a length with it; so of a finite number the
  greatest integer not above it is kept (for an integer \<open>n\<close>, \<^verbatim>\<open>n > c\<close> holds exactly
  when \<open>n\<close> is above that integer).
\<close>

datatype limit_value =
    LimitUndefined
  | LimitNaN
  | LimitInfinity
  | LimitNegInfinity
  | LimitNumber int

text \<open>
  \<^verbatim>\<open>n > x\<close> for a length \<open>n\<close> and a limit \<open>x\<close>: \<^verbatim>\<open>undefined\<close> converts to
  \<^verbatim>\<open>NaN\<close>, and every comparison with \<^verbatim>\<open>NaN\<close> is false.
\<close>

fun exceeds :: "nat \<Rightarrow> limit_value \<Rightarrow> bool" where
  "exceeds n (LimitNumber c) = (c < int n)"
| "exceeds n LimitNegInfinity = True"
| "exceeds n LimitInfinity = False"
| "exceeds n LimitNaN = False"
| "exceeds n LimitUndefined = False"

record token_limits =
  maxTokenB64urlChars :: limit_value
  maxGzipBytes :: limit_value
  maxInflatedChars :: limit_value

text \<open>The optional \<^verbatim>\<open>limits\<close> argument: \<open>None\<close> is a property that is absent.\<close>

record token_limits_partial =
  maxTokenB64urlChars_opt :: "limit_value option"
  maxGzipBytes_opt :: "limit_value option"
  maxInflatedChars_opt :: "limit_value option"

definition TOKEN_DEFAULT_LIMITS :: token_limits where
  "TOKEN_DEFAULT_LIMITS =
     \<lparr> maxTokenB64urlChars = LimitNumber 64000, maxGzipBytes = LimitNumber 64000,
       maxInflatedChars = LimitNumber 512000 \<rparr>"

definition no_token_limits :: token_limits_partial where
  "no_token_limits =
     \<lparr> maxTokenB64urlChars_opt = None, maxGzipBytes_opt = None, maxInflatedChars_opt = None \<rparr>"

text \<open>\<^verbatim>\<open>{ ...DEFAULT_LIMITS, ...(limits ?? {}) }\<close>\<close>

definition token_lim :: "token_limits_partial \<Rightarrow> token_limits" where
  "token_lim l =
     \<lparr> maxTokenB64urlChars = (case maxTokenB64urlChars_opt l of Some n \<Rightarrow> n
                          | None \<Rightarrow> maxTokenB64urlChars TOKEN_DEFAULT_LIMITS),
       maxGzipBytes = (case maxGzipBytes_opt l of Some n \<Rightarrow> n
                          | None \<Rightarrow> maxGzipBytes TOKEN_DEFAULT_LIMITS),
       maxInflatedChars = (case maxInflatedChars_opt l of Some n \<Rightarrow> n
                          | None \<Rightarrow> maxInflatedChars TOKEN_DEFAULT_LIMITS) \<rparr>"

text \<open>Every \<^verbatim>\<open>throw\<close> of the module is one constructor.\<close>

datatype base64_failure =
    Base64NotString          \<comment> \<open>\<^verbatim>\<open>base64 must be a string\<close>\<close>
  | AtobThrew                \<comment> \<open>the exception of \<^verbatim>\<open>atob\<close>\<close>
  | NoBase64Decoder          \<comment> \<open>\<^verbatim>\<open>no base64 decoder available\<close>\<close>

datatype token_error =
    TokenNotString           \<comment> \<open>\<^verbatim>\<open>token must be a string\<close>\<close>
  | TokenEmpty               \<comment> \<open>\<^verbatim>\<open>token must be non-empty\<close>\<close>
  | TokenTooLarge            \<comment> \<open>\<^verbatim>\<open>token too large\<close>\<close>
  | InvalidB64urlLength      \<comment> \<open>\<^verbatim>\<open>invalid base64url length\<close>\<close>
  | InvalidB64url base64_failure  \<comment> \<open>\<^verbatim>\<open>invalid base64url: ...\<close>\<close>
  | CompressedTooLarge       \<comment> \<open>\<^verbatim>\<open>compressed token too large\<close>\<close>
  | HexNotString             \<comment> \<open>\<^verbatim>\<open>hex must be a string\<close>\<close>
  | HexEmpty                 \<comment> \<open>\<^verbatim>\<open>hex must be non-empty\<close>\<close>
  | InvalidHexLength         \<comment> \<open>\<^verbatim>\<open>invalid hex length\<close>\<close>
  | InvalidHexChars          \<comment> \<open>\<^verbatim>\<open>invalid hex characters\<close>\<close>
  | InflatedTooLarge         \<comment> \<open>\<^verbatim>\<open>inflated token too large\<close>\<close>

subsection \<open>base64ToBytes\<close>

text \<open>
  With \<^verbatim>\<open>atob\<close>: \<^verbatim>\<open>out[i] = bin.charCodeAt(i)\<close> into a \<^verbatim>\<open>Uint8Array\<close>, which keeps the
  low eight bits.  Without it, the Node \<^verbatim>\<open>Buffer\<close>; without both, an exception.
\<close>

definition base64ToBytes :: "host \<Rightarrow> jsval \<Rightarrow> base64_failure + byte list" where
  "base64ToBytes h v =
     (case v of
        JStr b64 \<Rightarrow>
          (case host_atob h of
             Some atob_fn \<Rightarrow>
               (case atob_fn b64 of
                  None \<Rightarrow> Inl AtobThrew
                | Some bin \<Rightarrow> Inr (map ucast bin))
           | None \<Rightarrow>
               (case host_Buffer h of
                  Some nb \<Rightarrow> Inr (buf_from_base64 nb b64)
                | None \<Rightarrow> Inl NoBase64Decoder))
      | _ \<Rightarrow> Inl Base64NotString)"

subsection \<open>b64urlToBytes\<close>

text \<open>\<^verbatim>\<open>b64url.replace(/-/g, '+').replace(/_/g, '/')\<close>\<close>

definition b64url_to_b64_chars :: "jsstring \<Rightarrow> jsstring" where
  "b64url_to_b64_chars s = map (\<lambda>c. if c = 0x2D then 0x2B else if c = 0x5F then 0x2F else c) s"

text \<open>
  \<^verbatim>\<open>if (pad === 2) b64 += '=='; else if (pad === 3) b64 += '=';\<close> (the remaining
  branch, \<^verbatim>\<open>else if (pad !== 0) throw\<close>, is in \<open>b64urlToBytes\<close>).
\<close>

definition b64_with_padding :: "jsstring \<Rightarrow> jsstring" where
  "b64_with_padding b64 =
     (if length b64 mod 4 = 2 then b64 @ [0x3D, 0x3D]
      else if length b64 mod 4 = 3 then b64 @ [0x3D]
      else b64)"

definition b64urlToBytes :: "host \<Rightarrow> jsval \<Rightarrow> token_limits_partial \<Rightarrow> token_error + byte list" where
  "b64urlToBytes h v limits =
     (let lim = token_lim limits in
      case v of
        JStr b64url \<Rightarrow>
          if length b64url = 0 then Inl TokenEmpty
          else if exceeds (length b64url) (maxTokenB64urlChars lim) then Inl TokenTooLarge
          else
            (let b64 = b64url_to_b64_chars b64url;
                 pad = length b64 mod 4
             in if pad \<noteq> 2 \<and> pad \<noteq> 3 \<and> pad \<noteq> 0 then Inl InvalidB64urlLength
                else
                  (case base64ToBytes h (JStr (b64_with_padding b64)) of
                     Inl e \<Rightarrow> Inl (InvalidB64url e)
                   | Inr out \<Rightarrow>
                       if exceeds (length out) (maxGzipBytes lim) then Inl CompressedTooLarge
                       else Inr out))
      | _ \<Rightarrow> Inl TokenNotString)"

subsection \<open>hexToUtf8String\<close>

text \<open>
  \<^verbatim>\<open>Number.parseInt(hex.slice(i, i + 2), 16)\<close> on two hex digits, for
  \<^verbatim>\<open>i = 0, 2, 4, ...\<close>; the source reaches the loop only with an even number of hex
  digits.  \<^verbatim>\<open>Buffer.from(hex, 'hex')\<close> gives the same bytes on such input.
\<close>

definition hex_digit_value :: "16 word \<Rightarrow> nat" where
  "hex_digit_value c =
     (if 0x30 \<le> c \<and> c \<le> 0x39 then unat c - 0x30
      else if 0x61 \<le> c \<and> c \<le> 0x66 then unat c - 0x61 + 10
      else unat c - 0x41 + 10)"

fun hex_pairs_to_bytes :: "jsstring \<Rightarrow> byte list" where
  "hex_pairs_to_bytes (a # b # rest) =
     of_nat (16 * hex_digit_value a + hex_digit_value b) # hex_pairs_to_bytes rest"
| "hex_pairs_to_bytes _ = []"

definition hexToUtf8String :: "host \<Rightarrow> jsval \<Rightarrow> token_limits_partial \<Rightarrow> token_error + jsstring" where
  "hexToUtf8String h v limits =
     (let lim = token_lim limits in
      case v of
        JStr hex \<Rightarrow>
          if length hex = 0 then Inl HexEmpty
          else if length hex mod 2 \<noteq> 0 then Inl InvalidHexLength
          else if \<not> list_all is_hex_digit hex then Inl InvalidHexChars
          else if exceeds (length hex) (maxInflatedChars lim) then Inl InflatedTooLarge
          else
            (case host_Buffer h of
               Some nb \<Rightarrow> Inr (buf_utf8_toString nb (hex_pairs_to_bytes hex))
             | None \<Rightarrow> Inr (host_TextDecoder h (hex_pairs_to_bytes hex)))
      | _ \<Rightarrow> Inl HexNotString)"

text \<open>
  The UTF-8 decoder \<open>hexToUtf8String\<close> ends with: \<^verbatim>\<open>Buffer\<close> when there is one,
  \<^verbatim>\<open>TextDecoder\<close> otherwise.
\<close>

definition host_utf8_decode :: "host \<Rightarrow> byte list \<Rightarrow> jsstring" where
  "host_utf8_decode h =
     (case host_Buffer h of
        Some nb \<Rightarrow> buf_utf8_toString nb
      | None \<Rightarrow> host_TextDecoder h)"

section \<open>The encoders of the repository's tests (tests/token.test.js)\<close>

text \<open>
  \<^verbatim>\<open>bytesToB64url\<close>: base64, then \<^verbatim>\<open>+\<close> to \<^verbatim>\<open>-\<close>, \<^verbatim>\<open>/\<close> to \<^verbatim>\<open>_\<close>, and the trailing
  run of \<^verbatim>\<open>=\<close> removed.
\<close>

definition to_url_char :: "16 word \<Rightarrow> 16 word" where
  "to_url_char c = (if c = 0x2B then 0x2D else if c = 0x2F then 0x5F else c)"

definition bytesToB64url :: "byte list \<Rightarrow> jsstring" where
  "bytesToB64url bytes =
     (let b64 = base64_encode bytes;
          r = map to_url_char b64
      in rev (dropWhile (\<lambda>c. c = 0x3D) (rev r)))"

text \<open>
  \<^verbatim>\<open>utf8ToHex\<close>: \<^verbatim>\<open>Buffer.from(str, 'utf8').toString('hex')\<close>.  The UTF-8 encoder of the
  host is the parameter \<open>enc\<close>; the hex digits are lower-case.
\<close>

definition utf8ToHex :: "(jsstring \<Rightarrow> byte list) \<Rightarrow> jsstring \<Rightarrow> jsstring" where
  "utf8ToHex enc str = concat (map byte_to_hex2 (enc str))"

section \<open>A concrete host\<close>

text \<open>
  The properties below hold for every host.  Concrete evaluations need one host: a
  browser (\<^verbatim>\<open>atob\<close> and \<^verbatim>\<open>TextDecoder\<close>, no \<^verbatim>\<open>Buffer\<close>) with the standard functions.
\<close>

subsection \<open>UTF-8 as the Encoding standard defines it\<close>

text \<open>
  The decoder state is the code point so far, the number of continuation bytes still
  needed, and the bounds for the next byte.  A byte outside the bounds ends the sequence
  with U+FFFD and is read again as the start of a new one.
\<close>

function utf8_decode_from :: "nat \<Rightarrow> nat \<Rightarrow> nat \<Rightarrow> nat \<Rightarrow> nat list \<Rightarrow> nat list" where
  "utf8_decode_from cp need lo hi [] = (if need \<noteq> 0 then [0xFFFD] else [])"
| "utf8_decode_from cp need lo hi (b # bs) =
     (if need = 0 then
        (if b \<le> 0x7F then b # utf8_decode_from 0 0 0x80 0xBF bs
         else if 0xC2 \<le> b \<and> b \<le> 0xDF then utf8_decode_from (b mod 32) 1 0x80 0xBF bs
         else if 0xE0 \<le> b \<and> b \<le> 0xEF then
           utf8_decode_from (b mod 16) 2
             (if b = 0xE0 then 0xA0 else 0x80) (if b = 0xED then 0x9F else 0xBF) bs
         else if 0xF0 \<le> b \<and> b \<le> 0xF4 then
           utf8_decode_from (b mod 8) 3
             (if b = 0xF0 then 0x90 else 0x80) (if b = 0xF4 then 0x8F else 0xBF) bs
         else 0xFFFD # utf8_decode_from 0 0 0x80 0xBF bs)
      else if b < lo \<or> hi < b then 0xFFFD # utf8_decode_from 0 0 0x80 0xBF (b # bs)
      else if need = 1 then (cp * 64 + b mod 64) # utf8_decode_from 0 0 0x80 0xBF bs
      else utf8_decode_from (cp * 64 + b mod 64) (need - 1) 0x80 0xBF bs)"
  by pat_completeness auto
termination
  by (relation "measure (\<lambda>(cp, need, lo, hi, bs). 2 * length bs + (if need = 0 then 0 else 1))")
     auto

text \<open>A code point as UTF-16 code units: a surrogate pair above the basic plane.\<close>

definition code_point_to_utf16 :: "nat \<Rightarrow> jsstring" where
  "code_point_to_utf16 cp =
     (if cp < 0x10000 then [of_nat cp]
      else [of_nat (0xD800 + (cp - 0x10000) div 1024), of_nat (0xDC00 + (cp - 0x10000) mod 1024)])"

text \<open>
  \<^verbatim>\<open>new TextDecoder().decode(bytes)\<close>: UTF-8, not fatal, a leading byte order mark
  removed.
\<close>

definition TextDecoder_decode :: "byte list \<Rightarrow> jsstring" where
  "TextDecoder_decode bytes =
     (let bs = (if take 3 bytes = [0xEF, 0xBB, 0xBF] then drop 3 bytes else bytes)
      in concat (map code_point_to_utf16 (utf8_decode_from 0 0 0x80 0xBF (map unat bs))))"

text \<open>
  \<^verbatim>\<open>Buffer.from(str, 'utf8')\<close>: a surrogate pair is one code point of four bytes, a lone
  surrogate is encoded as U+FFFD.
\<close>

definition utf8_bytes_of_code_point :: "nat \<Rightarrow> byte list" where
  "utf8_bytes_of_code_point cp =
     (if cp < 0x80 then [of_nat cp]
      else if cp < 0x800 then [of_nat (0xC0 + cp div 64), of_nat (0x80 + cp mod 64)]
      else if cp < 0x10000 then
        [of_nat (0xE0 + cp div 4096), of_nat (0x80 + (cp div 64) mod 64), of_nat (0x80 + cp mod 64)]
      else
        [of_nat (0xF0 + cp div 262144), of_nat (0x80 + (cp div 4096) mod 64),
         of_nat (0x80 + (cp div 64) mod 64), of_nat (0x80 + cp mod 64)])"

fun utf8_encode :: "jsstring \<Rightarrow> byte list" where
  "utf8_encode [] = []"
| "utf8_encode [u] =
     (if 0xD800 \<le> u \<and> u \<le> 0xDFFF then utf8_bytes_of_code_point 0xFFFD
      else utf8_bytes_of_code_point (unat u))"
| "utf8_encode (u # v # rest) =
     (if 0xD800 \<le> u \<and> u \<le> 0xDBFF \<and> 0xDC00 \<le> v \<and> v \<le> 0xDFFF then
        utf8_bytes_of_code_point (0x10000 + (unat u - 0xD800) * 1024 + (unat v - 0xDC00)) @
        utf8_encode rest
      else if 0xD800 \<le> u \<and> u \<le> 0xDFFF then
        utf8_bytes_of_code_point 0xFFFD @ utf8_encode (v # rest)
      else utf8_bytes_of_code_point (unat u) @ utf8_encode (v # rest))"

subsection \<open>Two gzip streams\<close>

text \<open>
  The bytes \<^verbatim>\<open>pako.gzip\<close> produces for the empty string and for the string
  \<^verbatim>\<open>612e622e63\<close> (the hex of \<^verbatim>\<open>a.b.c\<close>): the ten-byte header, one fixed-Huffman
  deflate block, CRC-32 and length.
\<close>

definition gzip_of_empty :: "byte list" where
  "gzip_of_empty =
     [0x1f, 0x8b, 0x08, 0x00, 0x00, 0x00, 0x00, 0x00, 0x00, 0x03,
      0x03, 0x00,
      0x00, 0x00, 0x00, 0x00, 0x00, 0x00, 0x00, 0x00]"

definition gzip_of_hex_abc :: "byte list" where
  "gzip_of_hex_abc =
     [0x1f, 0x8b, 0x08, 0x00, 0x00, 0x00, 0x00, 0x00, 0x00, 0x03,
      0x33, 0x33, 0x34, 0x4a, 0x35, 0x33, 0x02, 0x62, 0x63, 0x00,
      0x0e, 0xbf, 0x7b, 0x8a, 0x0a, 0x00, 0x00, 0x00]"

text \<open>
  \<^verbatim>\<open>pako.ungzip(gz, { to: 'string' })\<close> on these two streams.  Inflating in general is
  not modelled: on every other input this function reports an exception, so it stands for
  pako at these two streams only.
\<close>

definition pako_ungzip_on_samples :: "byte list \<Rightarrow> jsstring option" where
  "pako_ungzip_on_samples gz =
     (if gz = gzip_of_empty then Some []
      else if gz = gzip_of_hex_abc then Some (js ''612e622e63'')
      else None)"

definition browser_host :: host where
  "browser_host =
     \<lparr> host_atob = Some atob,
       host_Buffer = None,
       host_TextDecoder = TextDecoder_decode,
       pako_ungzip = pako_ungzip_on_samples \<rparr>"

text \<open>The same host without \<^verbatim>\<open>atob\<close>: neither decoder of \<open>base64ToBytes\<close> is there.\<close>

definition bare_host :: host where
  "bare_host = browser_host\<lparr> host_atob := None \<rparr>"

section \<open>Backend URL policy (internal/policy.js, continued)\<close>

text \<open>
  The \<^verbatim>\<open>URL\<close> class belongs to the host.  Of a parsed URL the code reads
  \<^verbatim>\<open>origin\<close>, \<^verbatim>\<open>protocol\<close> and \<^verbatim>\<open>toString()\<close>.  The URL standard's parser
  (input and optional parsed base, failure as \<open>None\<close>) is a parameter.
\<close>

record url =
  url_protocol :: jsstring
  url_origin :: jsstring
  url_href :: jsstring

type_synonym url_parser = "jsstring \<Rightarrow> url option \<Rightarrow> url option"

text \<open>
  \<^verbatim>\<open>new URL(input)\<close> and \<^verbatim>\<open>new URL(input, base)\<close>: the base is parsed first, and the
  constructor throws (\<open>None\<close>) when either parse fails.
\<close>

fun new_URL :: "url_parser \<Rightarrow> jsstring \<Rightarrow> jsstring option \<Rightarrow> url option" where
  "new_URL p input None = p input None"
| "new_URL p input (Some base) =
     (case p base None of
        None \<Rightarrow> None
      | Some b \<Rightarrow> p input (Some b))"

record url_policy_opts =
  pageHref :: jsstring
  pageOrigin :: jsstring
  allowCrossOrigin :: bool
  allowedOrigins :: jsval

text \<open>
  The callback of \<^verbatim>\<open>allowedOrigins.some(...)\<close>: a string entry that parses and has the
  origin of the resolved URL.
\<close>

fun origin_entry_matches :: "url_parser \<Rightarrow> url \<Rightarrow> jsval \<Rightarrow> bool" where
  "origin_entry_matches p u (JStr o') =
     (case new_URL p o' None of
        Some ou \<Rightarrow> url_origin ou = url_origin u
      | None \<Rightarrow> False)"
| "origin_entry_matches p u _ = False"

fun origin_allowed :: "url_parser \<Rightarrow> url \<Rightarrow> jsval \<Rightarrow> bool" where
  "origin_allowed p u (JArr entries) = list_ex (origin_entry_matches p u) entries"
| "origin_allowed p u _ = False"

definition https_protocol :: jsstring where
  "https_protocol = js ''https:''"

text \<open>
  The options object is present and its two strings are strings (the record's types);
  the remaining checks are the source's, in its order.  \<^verbatim>\<open>new URL(pageHref)\<close> in the
  last check cannot throw, since \<^verbatim>\<open>pageHref\<close> has been parsed as the base before.
\<close>

definition resolveBackendVerifyUrl ::
  "url_parser \<Rightarrow> jsstring \<Rightarrow> url_policy_opts \<Rightarrow> policy_error + jsstring" where
  "resolveBackendVerifyUrl p raw opts =
     (if length (pageHref opts) = 0 then Inl PageHrefRequired
      else if length (pageOrigin opts) = 0 then Inl PageOriginRequired
      else
        (case new_URL p raw (Some (pageHref opts)) of
           None \<Rightarrow> Inl InvalidUrl
         | Some u \<Rightarrow>
            (let sameOrigin = (url_origin u = pageOrigin opts) in
             if \<not> sameOrigin \<and> \<not> allowCrossOrigin opts then Inl SameOriginByDefault
             else if \<not> sameOrigin \<and> \<not> origin_allowed p u (allowedOrigins opts)
               then Inl OriginNotAllowed
             else if \<not> sameOrigin \<and> url_protocol u \<noteq> https_protocol then Inl MustBeHttps
             else
               (case new_URL p (pageHref opts) None of
                  None \<Rightarrow> Inl InvalidUrl
                | Some pg \<Rightarrow>
                    if sameOrigin \<and> url_protocol u \<noteq> https_protocol \<and>
                       url_protocol u \<noteq> url_protocol pg
                    then Inl ProtocolMismatch
                    else Inr (url_href u)))))"

text \<open>
  The URL parser on the URLs of the repository's tests (tests/policy.test.js).  Parsing
  in general is not modelled: this table has no entry (\<open>None\<close>) for any other input,
  so it stands for the standard's parser at these inputs only.
\<close>

definition mk_url :: "string \<Rightarrow> string \<Rightarrow> string \<Rightarrow> url" where
  "mk_url proto orig href = \<lparr> url_protocol = js proto, url_origin = js orig, url_href = js href \<rparr>"

definition url_parser_on_samples :: url_parser where
  "url_parser_on_samples input base =
     (if input = js ''https://rp.example/path''
        then Some (mk_url ''https:'' ''https://rp.example'' ''https://rp.example/path'')
      else if input = js ''http://rp.example/path''
        then Some (mk_url ''http:'' ''http://rp.example'' ''http://rp.example/path'')
      else if input = js ''https://api.example/verify''
        then Some (mk_url ''https:'' ''https://api.example'' ''https://api.example/verify'')
      else if input = js ''http://api.example/verify''
        then Some (mk_url ''http:'' ''http://api.example'' ''http://api.example/verify'')
      else if input = js ''https://api.example''
        then Some (mk_url ''https:'' ''https://api.example'' ''https://api.example/'')
      else if input = js ''http://api.example''
        then Some (mk_url ''http:'' ''http://api.example'' ''http://api.example/'')
      else if input = js ''https://other.example''
        then Some (mk_url ''https:'' ''https://other.example'' ''https://other.example/'')
      else if input = js ''/api/verify'' then
        (case base of
           None \<Rightarrow> None
         | Some b \<Rightarrow>
             Some \<lparr> url_protocol = url_protocol b, url_origin = url_origin b,
                    url_href = url_origin b @ js ''/api/verify'' \<rparr>)
      else None)"

section \<open>The handshake (agegate.js)\<close>

definition CHILD_ORIGIN :: jsstring where
  "CHILD_ORIGIN = js ''https://agecheck.me''"

definition VERIFY_PAGE :: jsstring where
  "VERIFY_PAGE = js ''verify.html''"

subsection \<open>Configuration, page and errors\<close>

text \<open>
  \<^verbatim>\<open>AgeGateConfig\<close> after the defaults of the destructuring.  Of a callback only its
  presence matters (\<^verbatim>\<open>cb?.(...args)\<close>); \<open>cfg_timeoutMs\<close> is \<open>None\<close> for \<^verbatim>\<open>null\<close>.
\<close>

record config =
  cfg_onSuccess :: bool
  cfg_onFailure :: bool
  cfg_include :: jsval
  cfg_session :: jsval
  cfg_backendVerifyUrl :: jsval
  cfg_backendVerifyAllowCrossOrigin :: bool
  cfg_backendVerifyAllowedOrigins :: jsval
  cfg_backendExtraHeaders :: "(jsstring \<times> jsstring) list"
  cfg_timeoutMs :: "int option"
  cfg_requireNoReferrer :: bool
  cfg_allowFullPageFallback :: bool

text \<open>
  What the code asks of the page it runs in: whether the no-referrer meta tag is there,
  whether \<^verbatim>\<open>window.open\<close> returns a window, the location, and the host functions.
\<close>

record page =
  meta_no_referrer :: bool
  window_open_succeeds :: bool
  location_href :: jsstring
  location_origin :: jsstring
  page_crypto :: crypto_env
  page_host :: host
  page_url_parser :: url_parser

text \<open>The errors that reach \<^verbatim>\<open>onFailure\<close> (all are \<^verbatim>\<open>Error\<close> objects already).\<close>

datatype agegate_error =
    MissingNoReferrer                \<comment> \<open>\<^verbatim>\<open>Missing required meta referrer=no-referrer\<close>\<close>
  | PopupBlocked                     \<comment> \<open>\<^verbatim>\<open>Popup blocked and fallback disabled\<close>\<close>
  | TokenError token_error           \<comment> \<open>thrown by the token decoder\<close>
  | UngzipThrew                      \<comment> \<open>thrown by \<^verbatim>\<open>pako.ungzip\<close>\<close>
  | InvalidJwt                       \<comment> \<open>\<^verbatim>\<open>invalid jwt\<close>\<close>
  | PolicyError policy_error         \<comment> \<open>thrown by \<^verbatim>\<open>resolveBackendVerifyUrl\<close>\<close>
  | FetchFailed                      \<comment> \<open>the rejection of \<^verbatim>\<open>fetch\<close> (network error, abort)\<close>
  | BackendFailed nat jsstring       \<comment> \<open>\<^verbatim>\<open>backend verification failed: <status> <text>\<close>\<close>
  | TimedOut                         \<comment> \<open>\<^verbatim>\<open>Timed out waiting for age verification\<close>\<close>

datatype callback_call =
    OnSuccess jsstring jsval jsval   \<comment> \<open>\<^verbatim>\<open>onSuccess(jwt, payload, backendResult)\<close>\<close>
  | OnFailure agegate_error          \<comment> \<open>\<^verbatim>\<open>onFailure(err)\<close>\<close>

subsection \<open>makeVerifyUrl\<close>

text \<open>
  The URL of the child context, kept as its parts: the query parameters are the
  \<^verbatim>\<open>URLSearchParams\<close> entries before serialisation.
\<close>

record verify_url =
  vu_origin :: jsstring
  vu_page :: jsstring
  vu_query :: "(jsstring \<times> jsstring) list"

text \<open>A value of type \<^verbatim>\<open>string[] | undefined\<close> as a JavaScript value.\<close>

definition include_value :: "jsstring list option \<Rightarrow> jsval" where
  "include_value inc = (case inc of None \<Rightarrow> JUndefined | Some xs \<Rightarrow> JArr (map JStr xs))"

text \<open>\<^verbatim>\<open>inc.join(',')\<close>\<close>

fun join_comma :: "jsstring list \<Rightarrow> jsstring" where
  "join_comma [] = []"
| "join_comma [x] = x"
| "join_comma (x # y # rest) = x @ [0x2C] @ join_comma (y # rest)"

definition makeVerifyUrl :: "jsstring \<Rightarrow> jsstring list option \<Rightarrow> verify_url" where
  "makeVerifyUrl session include =
     (let qs = [(js ''session'', session), (js ''autostart'', js ''1'')];
          inc = sanitizeInclude (include_value include) no_policy_limits
      in \<lparr> vu_origin = CHILD_ORIGIN, vu_page = VERIFY_PAGE,
           vu_query =
             (case inc of
                Some xs \<Rightarrow> if length xs > 0 then qs @ [(js ''include'', join_comma xs)] else qs
              | None \<Rightarrow> qs) \<rparr>)"

subsection \<open>verifyWithBackend\<close>

text \<open>
  The call of \<^verbatim>\<open>fetch\<close>: \<open>req_body\<close> is the object \<^verbatim>\<open>{ jwt, ...payload }\<close> handed to
  \<^verbatim>\<open>JSON.stringify\<close>.
\<close>

record fetch_request =
  req_url :: jsstring
  req_method :: jsstring
  req_headers :: "(jsstring \<times> jsstring) list"
  req_body :: jsval
  req_credentials :: jsstring
  req_cache :: jsstring

text \<open>
  What the backend answers: \<^verbatim>\<open>fetch\<close> rejects, or there is a response with its
  \<^verbatim>\<open>ok\<close> flag, status, body text (\<open>None\<close> when \<^verbatim>\<open>res.text()\<close> rejects), content type
  header and parsed JSON (\<open>None\<close> when \<^verbatim>\<open>res.json()\<close> rejects).
\<close>

record response =
  res_ok :: bool
  res_status :: nat
  res_text :: "jsstring option"
  res_content_type :: "jsstring option"
  res_json :: "jsval option"

datatype fetch_outcome = FetchRejected | FetchResponded response

text \<open>
  An integer-like property key (an array index): the canonical decimal form of a number
  below \<open>2\<^sup>3\<^sup>2 - 1\<close>.
\<close>

definition array_index :: "jsstring \<Rightarrow> nat option" where
  "array_index k =
     (if k = [] \<or> \<not> list_all (\<lambda>c. 0x30 \<le> c \<and> c \<le> 0x39) k \<or> (1 < length k \<and> hd k = 0x30)
      then None
      else (let n = foldl (\<lambda>a c. 10 * a + (unat c - 0x30)) 0 k
            in if n < 2 ^ 32 - 1 then Some n else None))"

text \<open>
  \<^verbatim>\<open>{ 'content-type': 'application/json', ...(backendExtraHeaders ?? {}) }\<close>.  The
  properties of an object come in this order: the integer-like keys, ascending, then the
  other keys in the order of their creation.  So the integer-like header names of
  \<^verbatim>\<open>backendExtraHeaders\<close> come first, then \<^verbatim>\<open>content-type\<close> (with the caller's value
  when there is one), then the caller's other headers.
\<close>

definition request_headers :: "(jsstring \<times> jsstring) list \<Rightarrow> (jsstring \<times> jsstring) list" where
  "request_headers extra =
     sort_key (\<lambda>kv. the (array_index (fst kv)))
       (filter (\<lambda>kv. array_index (fst kv) \<noteq> None) extra) @
     (js ''content-type'',
        (case map_of extra (js ''content-type'') of
           Some v \<Rightarrow> v
         | None \<Rightarrow> js ''application/json'')) #
     filter (\<lambda>kv. array_index (fst kv) = None \<and> fst kv \<noteq> js ''content-type'') extra"

definition make_payload :: "jsstring list option \<Rightarrow> jsstring \<Rightarrow> jsval \<Rightarrow> jsval" where
  "make_payload include agegateway_session authenticationResponse =
     JObj [(js ''include'', include_value include),
           (js ''agegateway_session'', JStr agegateway_session),
           (js ''authenticationResponse'', authenticationResponse)]"

text \<open>The object literal \<^verbatim>\<open>{ jwt, ...payload }\<close>.\<close>

fun spread_after_jwt :: "jsstring \<Rightarrow> jsval \<Rightarrow> jsval" where
  "spread_after_jwt jwt (JObj fs) =
     JObj ((js ''jwt'', case map_of fs (js ''jwt'') of Some v \<Rightarrow> v | None \<Rightarrow> JStr jwt) #
           filter (\<lambda>kv. fst kv \<noteq> js ''jwt'') fs)"
| "spread_after_jwt jwt _ = JObj [(js ''jwt'', JStr jwt)]"

text \<open>
  The top-level keys \<^verbatim>\<open>JSON.stringify\<close> writes for an object: a property whose value is
  \<^verbatim>\<open>undefined\<close> is left out.
\<close>

fun json_keys :: "jsval \<Rightarrow> jsstring list" where
  "json_keys (JObj fs) = map fst (filter (\<lambda>kv. snd kv \<noteq> JUndefined) fs)"
| "json_keys _ = []"

text \<open>
  The part of \<^verbatim>\<open>verifyWithBackend\<close> before \<^verbatim>\<open>await fetch\<close>: the policy check, then
  the request.
\<close>

definition verifyWithBackend_request ::
  "page \<Rightarrow> config \<Rightarrow> jsstring \<Rightarrow> jsstring \<Rightarrow> jsval \<Rightarrow> policy_error + fetch_request" where
  "verifyWithBackend_request pg cfg backendVerifyUrl jwt payload =
     (let allowedOrigins =
            (case cfg_backendVerifyAllowedOrigins cfg of
               JArr es \<Rightarrow> JArr es
             | _ \<Rightarrow> JArr [])
      in case resolveBackendVerifyUrl (page_url_parser pg) backendVerifyUrl
                \<lparr> pageHref = location_href pg, pageOrigin = location_origin pg,
                  allowCrossOrigin = cfg_backendVerifyAllowCrossOrigin cfg,
                  allowedOrigins = allowedOrigins \<rparr> of
           Inl e \<Rightarrow> Inl e
         | Inr resolved \<Rightarrow>
             Inr \<lparr> req_url = resolved, req_method = js ''POST'',
                   req_headers = request_headers (cfg_backendExtraHeaders cfg),
                   req_body = spread_after_jwt jwt payload,
                   req_credentials = js ''omit'', req_cache = js ''no-store'' \<rparr>)"

text \<open>The part after the \<^verbatim>\<open>await\<close>: what the promise of \<^verbatim>\<open>verifyWithBackend\<close> settles to.\<close>

definition verifyWithBackend_result :: "fetch_outcome \<Rightarrow> agegate_error + jsval" where
  "verifyWithBackend_result outcome =
     (case outcome of
        FetchRejected \<Rightarrow> Inl FetchFailed
      | FetchResponded res \<Rightarrow>
          if \<not> res_ok res then
            Inl (BackendFailed (res_status res)
                   (case res_text res of Some t \<Rightarrow> t | None \<Rightarrow> []))
          else
            (let ct = (case res_content_type res of Some c \<Rightarrow> c | None \<Rightarrow> []) in
             if \<not> sublist (js ''application/json'') ct then Inr JNull
             else (case res_json res of Some v \<Rightarrow> Inr v | None \<Rightarrow> Inr JNull)))"

subsection \<open>The state of one launch\<close>

text \<open>
  The variables the closures of \<^verbatim>\<open>launchAgeGate\<close> share (\<^verbatim>\<open>done\<close>, \<^verbatim>\<open>processing\<close>,
  the abort controller), what the host knows (is the listener registered, are the
  interval and the timeout still pending, is the popup open), the handler suspended at
  \<^verbatim>\<open>await verifyWithBackend\<close> with its locals \<^verbatim>\<open>jwt\<close> and \<^verbatim>\<open>payload\<close>, and the
  effects so far: callbacks invoked, requests sent, navigation.
\<close>

datatype popup_state = NoPopup | PopupOpen | PopupClosed

record handshake =
  agegateway_session :: jsstring
  include_list :: "jsstring list option"
  popup :: popup_state
  done_flag :: bool
  processing :: bool
  aborted :: bool
  listening :: bool
  pollId :: bool
  timeoutId :: bool
  suspended :: "(jsstring \<times> jsval) option"
  callbacks :: "callback_call list"
  fetches :: "fetch_request list"
  navigated_to :: "verify_url option"

definition no_handshake :: handshake where
  "no_handshake =
     \<lparr> agegateway_session = [], include_list = None, popup = NoPopup,
       done_flag = False, processing = False, aborted = False,
       listening = False, pollId = False, timeoutId = False,
       suspended = None, callbacks = [], fetches = [], navigated_to = None \<rparr>"

text \<open>\<^verbatim>\<open>safeCallback\<close>: the callback is invoked when there is one; what it throws is caught.\<close>

definition safeCallback :: "bool \<Rightarrow> callback_call \<Rightarrow> handshake \<Rightarrow> handshake" where
  "safeCallback cb call st = (if cb then st\<lparr> callbacks := callbacks st @ [call] \<rparr> else st)"

definition cleanup :: "handshake \<Rightarrow> handshake" where
  "cleanup st = st\<lparr> listening := False, pollId := False, timeoutId := False \<rparr>"

text \<open>\<^verbatim>\<open>popup?.close()\<close>\<close>

definition close_popup :: "handshake \<Rightarrow> handshake" where
  "close_popup st = (if popup st = NoPopup then st else st\<lparr> popup := PopupClosed \<rparr>)"

definition finishFailure :: "config \<Rightarrow> agegate_error \<Rightarrow> handshake \<Rightarrow> handshake" where
  "finishFailure cfg err st =
     (if done_flag st then st
      else safeCallback (cfg_onFailure cfg) (OnFailure err)
             (close_popup (cleanup (st\<lparr> done_flag := True, aborted := True \<rparr>))))"

definition finishSuccess :: "config \<Rightarrow> jsstring \<Rightarrow> jsval \<Rightarrow> jsval \<Rightarrow> handshake \<Rightarrow> handshake" where
  "finishSuccess cfg jwt payload backendResult st =
     (if done_flag st then st
      else safeCallback (cfg_onSuccess cfg) (OnSuccess jwt payload backendResult)
             (close_popup (cleanup (st\<lparr> done_flag := True, aborted := True \<rparr>))))"

subsection \<open>The message handler\<close>

datatype window_ref = ThePopup | OtherWindow nat | NoWindow

record message_event =
  msg_origin :: jsstring
  msg_source :: window_ref
  msg_data :: jsval

text \<open>\<^verbatim>\<open>typeof token !== 'string' || token.length === 0\<close>, negated.\<close>

fun nonempty_string :: "jsval \<Rightarrow> bool" where
  "nonempty_string (JStr s) = (length s \<noteq> 0)"
| "nonempty_string _ = False"

text \<open>
  The checks at the head of \<^verbatim>\<open>handler\<close>, in the source's order; each \<^verbatim>\<open>return\<close> is
  \<open>False\<close>.
\<close>

definition handler_accepts :: "handshake \<Rightarrow> message_event \<Rightarrow> bool" where
  "handler_accepts st e =
     (if done_flag st \<or> processing st then False
      else if msg_origin e \<noteq> CHILD_ORIGIN then False
      else if msg_source e \<noteq> ThePopup then False
      else if \<not> is_object (msg_data e) then False
      else
        (let token = get_prop (msg_data e) (js ''token'');
             msgSession = get_prop (msg_data e) (js ''session'');
             authenticationResponse = get_prop (msg_data e) (js ''authenticationResponse'')
         in if msgSession \<noteq> JStr (agegateway_session st) then False
            else if \<not> nonempty_string token then False
            else if \<not> is_object authenticationResponse then False
            else True))"

text \<open>
  The decode sequence of the \<^verbatim>\<open>try\<close> block.  With \<^verbatim>\<open>{ to: 'string' }\<close> the result of
  \<^verbatim>\<open>pako.ungzip\<close> is a string, so \<^verbatim>\<open>invalid token payload\<close> is never thrown.
\<close>

definition decode_token :: "host \<Rightarrow> jsval \<Rightarrow> agegate_error + jsstring" where
  "decode_token h token =
     (case b64urlToBytes h token no_token_limits of
        Inl e \<Rightarrow> Inl (TokenError e)
      | Inr gz \<Rightarrow>
          (case pako_ungzip h gz of
             None \<Rightarrow> Inl UngzipThrew
           | Some hex \<Rightarrow>
               (case hexToUtf8String h (JStr hex) no_token_limits of
                  Inl e \<Rightarrow> Inl (TokenError e)
                | Inr jwt \<Rightarrow> if length jwt = 0 then Inl InvalidJwt else Inr jwt)))"

text \<open>\<^verbatim>\<open>typeof backendVerifyUrl === 'string' && backendVerifyUrl.length > 0\<close>\<close>

fun configured_backend :: "jsval \<Rightarrow> jsstring option" where
  "configured_backend (JStr u) = (if length u > 0 then Some u else None)"
| "configured_backend _ = None"

text \<open>
  \<^verbatim>\<open>handler\<close> up to its first suspension.  A message that is not accepted leaves
  everything as it is.  An accepted one sets \<^verbatim>\<open>processing\<close> and decodes; every
  exception goes to \<^verbatim>\<open>finishFailure\<close>, and \<^verbatim>\<open>finally\<close> resets \<^verbatim>\<open>processing\<close>.  With a
  backend configured and the URL policy satisfied, the request is sent and the handler
  is suspended, \<^verbatim>\<open>processing\<close> still set.
\<close>

definition handler :: "page \<Rightarrow> config \<Rightarrow> handshake \<Rightarrow> message_event \<Rightarrow> handshake" where
  "handler pg cfg st e =
     (if \<not> handler_accepts st e then st
      else
        (let token = get_prop (msg_data e) (js ''token'');
             authenticationResponse = get_prop (msg_data e) (js ''authenticationResponse'');
             st1 = st\<lparr> processing := True \<rparr>
         in case decode_token (page_host pg) token of
              Inl err \<Rightarrow> (finishFailure cfg err st1)\<lparr> processing := False \<rparr>
            | Inr jwt \<Rightarrow>
                (let payload = make_payload (include_list st) (agegateway_session st)
                                 authenticationResponse
                 in case configured_backend (cfg_backendVerifyUrl cfg) of
                      None \<Rightarrow> (finishSuccess cfg jwt payload JNull st1)\<lparr> processing := False \<rparr>
                    | Some backendVerifyUrl \<Rightarrow>
                        (case verifyWithBackend_request pg cfg backendVerifyUrl jwt payload of
                           Inl e \<Rightarrow>
                             (finishFailure cfg (PolicyError e) st1)\<lparr> processing := False \<rparr>
                         | Inr req \<Rightarrow>
                             st1\<lparr> fetches := fetches st1 @ [req],
                                  suspended := Some (jwt, payload) \<rparr>))))"

text \<open>The rest of \<^verbatim>\<open>handler\<close>, run when the awaited promise settles.\<close>

definition handler_resume :: "config \<Rightarrow> handshake \<Rightarrow> fetch_outcome \<Rightarrow> handshake" where
  "handler_resume cfg st outcome =
     (case suspended st of
        None \<Rightarrow> st
      | Some (jwt, payload) \<Rightarrow>
          (case verifyWithBackend_result outcome of
             Inl err \<Rightarrow> (finishFailure cfg err st)\<lparr> processing := False, suspended := None \<rparr>
           | Inr backendResult \<Rightarrow>
               (finishSuccess cfg jwt payload backendResult st)
                 \<lparr> processing := False, suspended := None \<rparr>))"

subsection \<open>The timers\<close>

text \<open>The callback of \<^verbatim>\<open>setInterval\<close>: a closed popup is cleaned up without a callback.\<close>

definition poll_callback :: "handshake \<Rightarrow> handshake" where
  "poll_callback st =
     (if popup st = PopupClosed then cleanup (st\<lparr> aborted := True \<rparr>) else st)"

text \<open>The callback of \<^verbatim>\<open>setTimeout\<close>.\<close>

definition timeout_callback :: "config \<Rightarrow> handshake \<Rightarrow> handshake" where
  "timeout_callback cfg st = finishFailure cfg TimedOut st"

subsection \<open>launchAgeGate\<close>

text \<open>
  The result is the state when \<^verbatim>\<open>launchAgeGate\<close> returns; \<open>Inl\<close> is an exception that
  leaves it (\<^verbatim>\<open>normalizeSession\<close> without a source of randomness).  The early returns
  leave a state with no popup, no listener and no timer.
\<close>

definition launchAgeGate :: "page \<Rightarrow> config \<Rightarrow> policy_error + handshake" where
  "launchAgeGate pg cfg =
     (if \<not> meta_no_referrer pg \<and> cfg_requireNoReferrer cfg then
        Inr (safeCallback (cfg_onFailure cfg) (OnFailure MissingNoReferrer) no_handshake)
      else
        (case normalizeSession (page_crypto pg) (cfg_session cfg) no_policy_limits of
           Inl e \<Rightarrow> Inl e
         | Inr session \<Rightarrow>
            (let include = sanitizeInclude (cfg_include cfg) no_policy_limits;
                 url = makeVerifyUrl session include
             in if \<not> window_open_succeeds pg then
                  (if cfg_allowFullPageFallback cfg
                   then Inr (no_handshake\<lparr> navigated_to := Some url \<rparr>)
                   else Inr (safeCallback (cfg_onFailure cfg) (OnFailure PopupBlocked)
                               no_handshake))
                else
                  Inr (no_handshake
                         \<lparr> agegateway_session := session, include_list := include,
                           popup := PopupOpen, listening := True, pollId := True,
                           timeoutId := (case cfg_timeoutMs cfg of
                                           Some t \<Rightarrow> t > 0
                                         | None \<Rightarrow> False) \<rparr>))))"

subsection \<open>Events\<close>

text \<open>
  What can happen after \<^verbatim>\<open>launchAgeGate\<close> has returned.  The host delivers a message
  only while the listener is registered, runs a timer callback only while the timer is
  set (the timeout is one-shot), and resumes the handler only when it is suspended; the
  user can close the popup at any time.  How the awaited request settles is up to the
  environment: after an abort it is a rejection, but no property below depends on that.
\<close>

datatype event =
    Message message_event
  | PollTick
  | TimeoutFires
  | UserClosesPopup
  | BackendSettles fetch_outcome

definition step :: "page \<Rightarrow> config \<Rightarrow> handshake \<Rightarrow> event \<Rightarrow> handshake" where
  "step pg cfg st ev =
     (case ev of
        Message e \<Rightarrow> if listening st then handler pg cfg st e else st
      | PollTick \<Rightarrow> if pollId st then poll_callback st else st
      | TimeoutFires \<Rightarrow>
          if timeoutId st then timeout_callback cfg (st\<lparr> timeoutId := False \<rparr>) else st
      | UserClosesPopup \<Rightarrow> close_popup st
      | BackendSettles outcome \<Rightarrow> handler_resume cfg st outcome)"

definition run :: "page \<Rightarrow> config \<Rightarrow> handshake \<Rightarrow> event list \<Rightarrow> handshake" where
  "run pg cfg st evs = foldl (step pg cfg) st evs"

text \<open>
  The same events handed to the closures directly, whether or not the host would still
  deliver them.
\<close>

definition fire :: "page \<Rightarrow> config \<Rightarrow> handshake \<Rightarrow> event \<Rightarrow> handshake" where
  "fire pg cfg st ev =
     (case ev of
        Message e \<Rightarrow> handler pg cfg st e
      | PollTick \<Rightarrow> poll_callback st
      | TimeoutFires \<Rightarrow> timeout_callback cfg st
      | UserClosesPopup \<Rightarrow> close_popup st
      | BackendSettles outcome \<Rightarrow> handler_resume cfg st outcome)"

subsection \<open>A concrete page and configuration\<close>

definition sample_crypto :: crypto_env where
  "sample_crypto =
     \<lparr> crypto_randomUUID = Some (js ''123e4567-e89b-42d3-a456-426614174000''),
       crypto_getRandomValues = None \<rparr>"

definition sample_page :: page where
  "sample_page =
     \<lparr> meta_no_referrer = True, window_open_succeeds = True,
       location_href = js ''https://rp.example/path'',
       location_origin = js ''https://rp.example'',
       page_crypto = sample_crypto, page_host = browser_host,
       page_url_parser = url_parser_on_samples \<rparr>"

text \<open>
  Both callbacks given, an explicit session, everything else at its default.
\<close>

definition sample_session :: jsstring where
  "sample_session = js ''550e8400-e29b-41d4-a716-446655440000''"

definition sample_config :: config where
  "sample_config =
     \<lparr> cfg_onSuccess = True, cfg_onFailure = True,
       cfg_include = JArr [JStr (js ''session'')],
       cfg_session = JStr sample_session,
       cfg_backendVerifyUrl = JUndefined,
       cfg_backendVerifyAllowCrossOrigin = False,
       cfg_backendVerifyAllowedOrigins = JArr [],
       cfg_backendExtraHeaders = [],
       cfg_timeoutMs = None,
       cfg_requireNoReferrer = False,
       cfg_allowFullPageFallback = True \<rparr>"

text \<open>
  A well-formed message for that session: the token is
  \<^verbatim>\<open>base64url(gzip(hex('a.b.c')))\<close>.
\<close>

definition sample_token :: jsstring where
  "sample_token = js ''H4sIAAAAAAAAAzMzNEo1MwJiYwAOv3uKCgAAAA''"

definition sample_message :: "jsstring \<Rightarrow> message_event" where
  "sample_message token =
     \<lparr> msg_origin = CHILD_ORIGIN, msg_source = ThePopup,
       msg_data = JObj [(js ''token'', JStr token),
                        (js ''session'', JStr sample_session),
                        (js ''authenticationResponse'', JObj [(js ''id'', JStr (js ''cred''))])] \<rparr>"

text \<open>The state in which \<^verbatim>\<open>launchAgeGate\<close> leaves that page, and the payload of that message.\<close>

definition sample_started :: handshake where
  "sample_started =
     no_handshake
       \<lparr> agegateway_session := sample_session, include_list := Some [js ''session''],
         popup := PopupOpen, listening := True, pollId := True, timeoutId := False \<rparr>"

definition sample_payload :: jsval where
  "sample_payload =
     make_payload (Some [js ''session'']) sample_session (JObj [(js ''id'', JStr (js ''cred''))])"

text \<open>The state after that message has been handled, and the same page with popups blocked.\<close>

definition sample_finished :: handshake where
  "sample_finished =
     sample_started
       \<lparr> popup := PopupClosed, done_flag := True, aborted := True,
         listening := False, pollId := False,
         callbacks := [OnSuccess (js ''a.b.c'') sample_payload JNull] \<rparr>"


definition backend_config :: config where
  "backend_config = sample_config\<lparr> cfg_backendVerifyUrl := JStr (js ''/api/verify'') \<rparr>"






text \<open>The request that configuration sends for that message, and a backend answer.\<close>

definition sample_request :: fetch_request where
  "sample_request =
     \<lparr> req_url = js ''https://rp.example/api/verify'', req_method = js ''POST'',
       req_headers = [(js ''content-type'', js ''application/json'')],
       req_body =
         JObj [(js ''jwt'', JStr (js ''a.b.c'')),
               (js ''include'', JArr [JStr (js ''session'')]),
               (js ''agegateway_session'', JStr sample_session),
               (js ''authenticationResponse'', JObj [(js ''id'', JStr (js ''cred''))])],
       req_credentials = js ''omit'', req_cache = js ''no-store'' \<rparr>"

definition sample_response :: response where
  "sample_response =
     \<lparr> res_ok = True, res_status = 200, res_text = None,
       res_content_type = Some (js ''application/json''),
       res_json = Some (JObj [(js ''ok'', JBool True)]) \<rparr>"

subsection \<open>Notions used in the properties\<close>





definition payload_inv :: "jsstring list option \<Rightarrow> jsstring \<Rightarrow> handshake \<Rightarrow> bool" where
  "payload_inv inc sess st \<longleftrightarrow>
     agegateway_session st = sess \<and> include_list st = inc \<and>
     (\<forall>jwt p r. OnSuccess jwt p r \<in> set (callbacks st) \<longrightarrow>
        (\<exists>ar. is_object ar \<and> p = make_payload inc sess ar)) \<and>
     (\<forall>req \<in> set (fetches st).
        \<exists>jwt ar. is_object ar \<and> req_body req = spread_after_jwt jwt (make_payload inc sess ar)) \<and>
     (\<forall>jwt p. suspended st = Some (jwt, p) \<longrightarrow>
        (\<exists>ar. is_object ar \<and> p = make_payload inc sess ar))"

section \<open>Helper facts about strings\<close>

lemma js_simps: "js [] = []" "js (c # cs) = of_nat (of_char c) # js cs"
  by (simp_all add: js_def)

lemma js_append: "js a @ js b = js (a @ b)"
  by (simp add: js_def)

section \<open>Properties of the policy helpers\<close>

lemma first_occurrences_snoc:
  "first_occurrences (xs @ [x]) = (if x \<in> set xs then first_occurrences xs else first_occurrences xs @ [x])"
  by (simp add: first_occurrences_def)

lemma set_first_occurrences: "set (first_occurrences xs) = set xs"
  by (simp add: first_occurrences_def)

lemma distinct_first_occurrences: "distinct (first_occurrences xs)"
  by (simp add: first_occurrences_def)

lemma first_occurrences_append:
  "first_occurrences (p @ q) = first_occurrences p @ filter (\<lambda>x. x \<notin> set p) (first_occurrences q)"
proof (induction q rule: rev_induct)
  case Nil
  then show ?case by (simp add: first_occurrences_def)
next
  case (snoc x q)
  have "first_occurrences (p @ q @ [x]) = first_occurrences ((p @ q) @ [x])" by simp
  also have "\<dots> = (if x \<in> set (p @ q) then first_occurrences (p @ q) else first_occurrences (p @ q) @ [x])"
    by (rule first_occurrences_snoc)
  finally show ?case using snoc by (auto simp: first_occurrences_snoc)
qed

lemma subseq_first_occurrences: "subseq (first_occurrences xs) xs"
proof (induction xs rule: rev_induct)
  case Nil
  then show ?case by (simp add: first_occurrences_def)
next
  case (snoc x xs)
  then show ?case
    by (auto simp: first_occurrences_snoc intro: list_emb_append_mono)
qed

lemma include_candidates_Cons:
  "include_candidates lim (item # rest) =
     (case item of
        JStr t \<Rightarrow> (if length (trim t) \<noteq> 0 \<and> length (trim t) \<le> maxIncludeItemLen lim
                    then [trim t] else []) @ include_candidates lim rest
      | _ \<Rightarrow> include_candidates lim rest)"
  by (cases item) (simp_all add: include_candidates_def)

lemma sanitize_loop_spec:
  "length (first_occurrences p) \<le> maxIncludeItems lim \<Longrightarrow>
   sanitize_loop lim items (first_occurrences p) =
     take (maxIncludeItems lim) (first_occurrences (p @ include_candidates lim items))"
proof (induction items arbitrary: p)
  case Nil
  then show ?case by (simp add: include_candidates_def)
next
  case (Cons item rest)
  show ?case
  proof (cases "length (first_occurrences p) \<ge> maxIncludeItems lim")
    case True
    with Cons.prems have "length (first_occurrences p) = maxIncludeItems lim" by simp
    then show ?thesis using True
      by (simp add: first_occurrences_append[of p])
  next
    case False
    then have lt: "length (first_occurrences p) < maxIncludeItems lim" by simp
    show ?thesis
    proof (cases item)
      case (JStr t)
      let ?s = "trim t"
      show ?thesis
      proof (cases "length ?s = 0 \<or> length ?s > maxIncludeItemLen lim")
        case True
        then show ?thesis using False JStr Cons.IH[OF Cons.prems]
          by (auto simp: include_candidates_Cons Let_def)
      next
        case ok: False
        have step: "first_occurrences (p @ [?s]) =
            (if ?s \<in> set p then first_occurrences p else first_occurrences p @ [?s])"
          by (rule first_occurrences_snoc)
        have len: "length (first_occurrences (p @ [?s])) \<le> maxIncludeItems lim"
          using lt by (simp add: step)
        have "sanitize_loop lim (item # rest) (first_occurrences p) =
              sanitize_loop lim rest (first_occurrences (p @ [?s]))"
          using False JStr ok by (simp add: step Let_def set_first_occurrences)
        also have "\<dots> = take (maxIncludeItems lim)
              (first_occurrences ((p @ [?s]) @ include_candidates lim rest))"
          by (rule Cons.IH[OF len])
        finally show ?thesis using JStr ok by (simp add: include_candidates_Cons)
      qed
    qed (use False Cons.IH[OF Cons.prems] in \<open>simp_all add: include_candidates_Cons\<close>)
  qed
qed

lemma sanitize_loop_empty:
  "sanitize_loop lim items [] =
     take (maxIncludeItems lim) (first_occurrences (include_candidates lim items))"
  using sanitize_loop_spec[of "[]" lim items] by (simp add: first_occurrences_def)

lemma default_policy_lim:
  "policy_lim no_policy_limits = \<lparr> maxSessionLen = 64, maxIncludeItems = 8, maxIncludeItemLen = 32 \<rparr>"
  by (simp add: policy_lim_def no_policy_limits_def POLICY_DEFAULT_LIMITS_def)

lemma subseq_take_first_occurrences: "subseq (take n (first_occurrences xs)) xs"
proof -
  have "subseq (take n (first_occurrences xs)) (take n (first_occurrences xs) @ drop n (first_occurrences xs))"
    by (rule list_emb_prefix) simp
  then have "subseq (take n (first_occurrences xs)) (first_occurrences xs)" by simp
  then show ?thesis using subseq_first_occurrences subseq_order.trans by blast
qed

text \<open>
  Claim C8.  For every input, \<open>sanitizeInclude\<close> (the loop of the source) returns what the
  specification describes: the trimmed string entries, without the empty and the
  over-length ones, first occurrences only and in their original order, cut after the
  item bound, and undefined (\<open>None\<close>) when nothing survives.  A returned list is
  non-empty, has no duplicates, has at most \<open>maxIncludeItems\<close> entries (8 by default,
  with entries of at most 32 characters) and is a subsequence of the trimmed valid
  entries.  Every input that is not an array gives undefined.  The example list of the
  specification maps to \<open>["loa", "session"]\<close>.
\<close>

theorem sanitizeInclude_meets_spec:
  "sanitizeInclude v limits = sanitizeInclude_spec v limits \<and>
   (\<forall>out. sanitizeInclude v limits = Some out \<longrightarrow>
      out \<noteq> [] \<and> distinct out \<and> length out \<le> maxIncludeItems (policy_lim limits) \<and>
      (\<exists>items. v = JArr items \<and> subseq out (include_candidates (policy_lim limits) items))) \<and>
   ((\<forall>items. v \<noteq> JArr items) \<longrightarrow> sanitizeInclude v limits = None) \<and>
   policy_lim no_policy_limits =
     \<lparr> maxSessionLen = 64, maxIncludeItems = 8, maxIncludeItemLen = 32 \<rparr> \<and>
   sanitizeInclude
     (JArr [JStr (js ''  loa  ''), JStr (js ''loa''), JStr (js ''''),
            JStr (replicate 100 0x78), JStr (js ''session''), JNum 123])
     no_policy_limits = Some [js ''loa'', js ''session'']"
proof (intro conjI allI impI)
  show eq: "sanitizeInclude v limits = sanitizeInclude_spec v limits"
    by (cases v) (simp_all add: sanitizeInclude_def sanitizeInclude_spec_def sanitize_loop_empty Let_def)
  show "policy_lim no_policy_limits =
     \<lparr> maxSessionLen = 64, maxIncludeItems = 8, maxIncludeItemLen = 32 \<rparr>"
    by (rule default_policy_lim)
  show "sanitizeInclude
     (JArr [JStr (js ''  loa  ''), JStr (js ''loa''), JStr (js ''''),
            JStr (replicate 100 0x78), JStr (js ''session''), JNum 123])
     no_policy_limits = Some [js ''loa'', js ''session'']"
    by (simp add: sanitizeInclude_def default_policy_lim trim_def js_def is_js_space_def Let_def)
  show "sanitizeInclude v limits = None" if "\<forall>items. v \<noteq> JArr items"
    using that by (cases v) (simp_all add: sanitizeInclude_def)
  fix out
  assume some: "sanitizeInclude v limits = Some out"
  then obtain items where v: "v = JArr items"
    by (cases v) (simp_all add: sanitizeInclude_def)
  let ?lim = "policy_lim limits"
  from some have "sanitizeInclude_spec v limits = Some out" by (simp add: eq)
  with v have out: "out = take (maxIncludeItems ?lim) (first_occurrences (include_candidates ?lim items))"
    and ne: "out \<noteq> []"
    by (auto simp: sanitizeInclude_spec_def Let_def split: if_splits)
  show "out \<noteq> []" by (rule ne)
  show "distinct out" by (simp add: out distinct_first_occurrences)
  show "length out \<le> maxIncludeItems ?lim" by (simp add: out)
  show "\<exists>items. v = JArr items \<and> subseq out (include_candidates ?lim items)"
    using v out subseq_take_first_occurrences by blast
qed

theorem sanitizeInclude_meets_spec_witness:
  "sanitizeInclude
     (JArr [JStr (js ''  loa  ''), JStr (js ''loa''), JStr (js ''''),
            JStr (replicate 100 0x78), JStr (js ''session''), JNum 123])
     no_policy_limits = Some [js ''loa'', js ''session''] \<and>
   distinct [js ''loa'', js ''session''] \<and>
   length [js ''loa'', js ''session''] \<le> maxIncludeItems (policy_lim no_policy_limits) \<and>
   subseq [js ''loa'', js ''session'']
     (include_candidates (policy_lim no_policy_limits)
        [JStr (js ''  loa  ''), JStr (js ''loa''), JStr (js ''''),
         JStr (replicate 100 0x78), JStr (js ''session''), JNum 123]) \<and>
   (\<forall>items. JStr (js ''loa'') \<noteq> JArr items) \<and>
   sanitizeInclude (JStr (js ''loa'')) no_policy_limits = None"
proof -
  let ?v = "JArr [JStr (js ''  loa  ''), JStr (js ''loa''), JStr (js ''''),
            JStr (replicate 100 0x78), JStr (js ''session''), JNum 123]"
  have a: "sanitizeInclude ?v no_policy_limits = Some [js ''loa'', js ''session'']"
    using sanitizeInclude_meets_spec[of ?v no_policy_limits] by blast
  have b: "\<forall>items. JStr (js ''loa'') \<noteq> JArr items" by simp
  show ?thesis
    using sanitizeInclude_meets_spec[of ?v no_policy_limits]
      sanitizeInclude_meets_spec[of "JStr (js ''loa'')" no_policy_limits] a b
    by auto
qed

lemma length_UUID_RE: "length UUID_RE = 36"
  by (simp add: UUID_RE_def)

lemma UUID_RE_unfold:
  "UUID_RE =
     [HexDigit, HexDigit, HexDigit, HexDigit, HexDigit, HexDigit, HexDigit, HexDigit, Dash,
      HexDigit, HexDigit, HexDigit, HexDigit, Dash,
      Version, HexDigit, HexDigit, HexDigit, Dash,
      Variant, HexDigit, HexDigit, HexDigit, Dash,
      HexDigit, HexDigit, HexDigit, HexDigit, HexDigit, HexDigit,
      HexDigit, HexDigit, HexDigit, HexDigit, HexDigit, HexDigit]"
  by (simp add: UUID_RE_def eval_nat_numeral)

lemma isUuid_length: "isUuid s \<Longrightarrow> length s = 36"
  unfolding isUuid_def using list_all2_lengthD[of class_matches UUID_RE s] by (simp add: length_UUID_RE)

text \<open>
  Claim C9.  \<open>normalizeSession\<close> trims before it validates: for every string whose
  trimmed form is a valid UUID no longer than the session bound (64 by default), the
  result is the trimmed string.  A UUID surrounded by whitespace comes back without the
  whitespace: not unchanged, and not replaced by a fresh random UUID.
\<close>

theorem normalizeSession_trims:
  "isUuid (trim t) \<Longrightarrow> length (trim t) \<le> maxSessionLen (policy_lim limits) \<Longrightarrow>
   normalizeSession env (JStr t) limits = Inr (trim t)"
  by (auto simp: normalizeSession_def Let_def dest: isUuid_length)

theorem normalizeSession_trims_witness:
  "isUuid (trim (js ''  550e8400-e29b-41d4-a716-446655440000  '')) \<and>
   length (trim (js ''  550e8400-e29b-41d4-a716-446655440000  '')) \<le> maxSessionLen (policy_lim no_policy_limits) \<and>
   normalizeSession \<lparr> crypto_randomUUID = Some (js ''123e4567-e89b-42d3-a456-426614174000''),
                      crypto_getRandomValues = None \<rparr>
      (JStr (js ''  550e8400-e29b-41d4-a716-446655440000  '')) no_policy_limits
     = Inr (js ''550e8400-e29b-41d4-a716-446655440000'') \<and>
   js ''550e8400-e29b-41d4-a716-446655440000'' \<noteq> js ''  550e8400-e29b-41d4-a716-446655440000  '' \<and>
   js ''550e8400-e29b-41d4-a716-446655440000'' \<noteq> js ''123e4567-e89b-42d3-a456-426614174000''"
proof -
  have t: "trim (js ''  550e8400-e29b-41d4-a716-446655440000  '') = js ''550e8400-e29b-41d4-a716-446655440000''"
    by (simp add: trim_def js_def is_js_space_def)
  have u: "isUuid (js ''550e8400-e29b-41d4-a716-446655440000'')"
    by (simp add: isUuid_def UUID_RE_unfold js_def is_hex_digit_def)
  have l: "length (js ''550e8400-e29b-41d4-a716-446655440000'') \<le> maxSessionLen (policy_lim no_policy_limits)"
    by (simp add: default_policy_lim js_def)
  have d: "js ''550e8400-e29b-41d4-a716-446655440000'' \<noteq> js ''  550e8400-e29b-41d4-a716-446655440000  ''"
    "js ''550e8400-e29b-41d4-a716-446655440000'' \<noteq> js ''123e4567-e89b-42d3-a456-426614174000''"
    by (simp_all add: js_simps)
  show ?thesis
    using normalizeSession_trims[of "js ''  550e8400-e29b-41d4-a716-446655440000  ''" no_policy_limits
        "\<lparr> crypto_randomUUID = Some (js ''123e4567-e89b-42d3-a456-426614174000''), crypto_getRandomValues = None \<rparr>"]
      t u l d by simp
qed

section \<open>Properties of the token decoder\<close>

lemma default_token_lim:
  "token_lim no_token_limits =
     \<lparr> maxTokenB64urlChars = LimitNumber 64000, maxGzipBytes = LimitNumber 64000,
       maxInflatedChars = LimitNumber 512000 \<rparr>"
  by (simp add: token_lim_def no_token_limits_def TOKEN_DEFAULT_LIMITS_def)

lemma exceeds_iff:
  "exceeds n c \<longleftrightarrow> (\<exists>k. c = LimitNumber k \<and> k < int n) \<or> c = LimitNegInfinity"
  by (cases c) auto

lemma length_b64url_to_b64_chars: "length (b64url_to_b64_chars s) = length s"
  by (simp add: b64url_to_b64_chars_def)

lemma b64urlToBytes_JStr:
  "b64urlToBytes h (JStr s) limits =
     (if s = [] then Inl TokenEmpty
      else if exceeds (length s) (maxTokenB64urlChars (token_lim limits)) then Inl TokenTooLarge
      else if length s mod 4 = 1 then Inl InvalidB64urlLength
      else case base64ToBytes h (JStr (b64_with_padding (b64url_to_b64_chars s))) of
             Inl e \<Rightarrow> Inl (InvalidB64url e)
           | Inr out \<Rightarrow> if exceeds (length out) (maxGzipBytes (token_lim limits))
                        then Inl CompressedTooLarge
                        else Inr out)"
proof -
  have m: "(length s mod 4 \<noteq> 2 \<and> length s mod 4 \<noteq> 3 \<and> length s mod 4 \<noteq> 0) = (length s mod 4 = 1)"
    by presburger
  show ?thesis
    using m by (auto simp: b64urlToBytes_def Let_def length_b64url_to_b64_chars)
qed

lemma b64urlToBytes_not_string:
  "\<forall>s. v \<noteq> JStr s \<Longrightarrow> b64urlToBytes h v limits = Inl TokenNotString"
  by (cases v) (simp_all add: b64urlToBytes_def)

lemma translated_is_map: "list_all2 (\<lambda>c d. d = f c) xs ys \<longleftrightarrow> ys = map f xs"
  by (induction xs arbitrary: ys) (auto simp: list_all2_Cons1)

lemma b64_with_padding_replicate:
  "length b64 mod 4 \<noteq> 1 \<Longrightarrow>
   b64_with_padding b64 = b64 @ replicate ((4 - length b64 mod 4) mod 4) 0x3D"
proof -
  assume a: "length b64 mod 4 \<noteq> 1"
  have "length b64 mod 4 < 4" by simp
  then consider "length b64 mod 4 = 0" | "length b64 mod 4 = 2" | "length b64 mod 4 = 3"
    using a by linarith
  then show ?thesis
  proof cases
    case 1 then show ?thesis by (simp add: b64_with_padding_def)
  next
    case 2
    have "replicate 2 (0x3D :: 16 word) = [0x3D, 0x3D]" by (simp add: numeral_2_eq_2)
    with 2 show ?thesis by (simp add: b64_with_padding_def)
  next
    case 3 then show ?thesis by (simp add: b64_with_padding_def)
  qed
qed

lemma base64ToBytes_JStr:
  "base64ToBytes h (JStr b) =
     (case host_atob h of
        Some decode \<Rightarrow>
          (case decode b of None \<Rightarrow> Inl AtobThrew | Some bin \<Rightarrow> Inr (map ucast bin))
      | None \<Rightarrow>
          (case host_Buffer h of
             Some nb \<Rightarrow> Inr (buf_from_base64 nb b)
           | None \<Rightarrow> Inl NoBase64Decoder))"
  by (simp add: base64ToBytes_def)

lemma token_lim_fields:
  "maxTokenB64urlChars (token_lim limits) =
     (case maxTokenB64urlChars_opt limits of None \<Rightarrow> LimitNumber 64000 | Some c \<Rightarrow> c)"
  "maxGzipBytes (token_lim limits) =
     (case maxGzipBytes_opt limits of None \<Rightarrow> LimitNumber 64000 | Some c \<Rightarrow> c)"
  by (simp_all add: token_lim_def TOKEN_DEFAULT_LIMITS_def split: option.splits)

text \<open>
  Claim C7.  Let the character ceiling and the byte ceiling be the configured ones, 64000
  each where the \<^verbatim>\<open>limits\<close> argument does not set them (a length exceeds a ceiling
  that is a number below it; nothing exceeds a ceiling set to \<^verbatim>\<open>undefined\<close>, \<^verbatim>\<open>NaN\<close>
  or \<^verbatim>\<open>Infinity\<close>); let \<open>b64\<close> be the token with
  every \<^verbatim>\<open>-\<close> replaced by \<^verbatim>\<open>+\<close> and every \<^verbatim>\<open>_\<close> by \<^verbatim>\<open>/\<close>, and \<open>padded\<close> that
  string filled up with \<^verbatim>\<open>=\<close> to a multiple of four characters.  \<open>b64urlToBytes\<close>
  throws exactly when its input is not a string, is empty, is longer than the character
  ceiling, has a translated length of remainder 1 modulo 4, fails base64 decoding (the
  host's \<^verbatim>\<open>atob\<close> throws on \<open>padded\<close>, or the host has no decoder at all), or decodes
  to more bytes than the byte ceiling; otherwise it returns the decoded bytes.  Each
  cause has its own error, in this order of precedence.
\<close>

theorem b64urlToBytes_throws_exactly_when:
  assumes "char_ceiling =
             (case maxTokenB64urlChars_opt limits of None \<Rightarrow> LimitNumber 64000 | Some c \<Rightarrow> c)"
    and "byte_ceiling =
             (case maxGzipBytes_opt limits of None \<Rightarrow> LimitNumber 64000 | Some c \<Rightarrow> c)"
    and "list_all2 (\<lambda>c d. d = (if c = 0x2D then 0x2B else if c = 0x5F then 0x2F else c)) s b64"
    and "padded = b64 @ replicate ((4 - length b64 mod 4) mod 4) 0x3D"
  shows
   "((\<exists>e. b64urlToBytes h (JStr s) limits = Inl e) \<longleftrightarrow>
       s = [] \<or> exceeds (length s) char_ceiling \<or> length b64 mod 4 = 1 \<or>
       (\<exists>e. base64ToBytes h (JStr padded) = Inl e) \<or>
       (\<exists>out. base64ToBytes h (JStr padded) = Inr out \<and> exceeds (length out) byte_ceiling)) \<and>
    ((\<exists>e. b64urlToBytes h (JStr s) limits = Inl e) \<or>
     (\<exists>out. b64urlToBytes h (JStr s) limits = Inr out \<and>
            base64ToBytes h (JStr padded) = Inr out)) \<and>
    (\<forall>w. (\<forall>t. w \<noteq> JStr t) \<longrightarrow> b64urlToBytes h w limits = Inl TokenNotString) \<and>
    (s = [] \<longrightarrow> b64urlToBytes h (JStr s) limits = Inl TokenEmpty) \<and>
    (s \<noteq> [] \<and> exceeds (length s) char_ceiling \<longrightarrow> b64urlToBytes h (JStr s) limits = Inl TokenTooLarge) \<and>
    (s \<noteq> [] \<and> \<not> exceeds (length s) char_ceiling \<and> length b64 mod 4 = 1 \<longrightarrow>
       b64urlToBytes h (JStr s) limits = Inl InvalidB64urlLength) \<and>
    (\<forall>e. s \<noteq> [] \<and> \<not> exceeds (length s) char_ceiling \<and> length b64 mod 4 \<noteq> 1 \<and>
         base64ToBytes h (JStr padded) = Inl e \<longrightarrow>
       b64urlToBytes h (JStr s) limits = Inl (InvalidB64url e)) \<and>
    (\<forall>out. s \<noteq> [] \<and> \<not> exceeds (length s) char_ceiling \<and> length b64 mod 4 \<noteq> 1 \<and>
         base64ToBytes h (JStr padded) = Inr out \<and> exceeds (length out) byte_ceiling \<longrightarrow>
       b64urlToBytes h (JStr s) limits = Inl CompressedTooLarge) \<and>
    (\<forall>out. s \<noteq> [] \<and> \<not> exceeds (length s) char_ceiling \<and> length b64 mod 4 \<noteq> 1 \<and>
         base64ToBytes h (JStr padded) = Inr out \<and> \<not> exceeds (length out) byte_ceiling \<longrightarrow>
       b64urlToBytes h (JStr s) limits = Inr out) \<and>
    base64ToBytes h (JStr padded) =
      (case host_atob h of
         Some decode \<Rightarrow>
           (case decode padded of None \<Rightarrow> Inl AtobThrew | Some bin \<Rightarrow> Inr (map ucast bin))
       | None \<Rightarrow>
           (case host_Buffer h of
              Some nb \<Rightarrow> Inr (buf_from_base64 nb padded)
            | None \<Rightarrow> Inl NoBase64Decoder)) \<and>
    (\<forall>n c. exceeds n c \<longleftrightarrow> (\<exists>k. c = LimitNumber k \<and> k < int n) \<or> c = LimitNegInfinity)"
proof -
  have b64: "b64 = b64url_to_b64_chars s"
    using assms(3) by (simp add: translated_is_map b64url_to_b64_chars_def)
  have len: "length b64 = length s" by (simp add: b64 length_b64url_to_b64_chars)
  have cc: "maxTokenB64urlChars (token_lim limits) = char_ceiling"
    and bc: "maxGzipBytes (token_lim limits) = byte_ceiling"
    by (simp_all add: assms(1,2) token_lim_fields)
  have pad: "b64_with_padding (b64url_to_b64_chars s) = padded" if "length s mod 4 \<noteq> 1"
    using that b64_with_padding_replicate[of b64] by (simp add: assms(4) b64 length_b64url_to_b64_chars)
  have main: "b64urlToBytes h (JStr s) limits =
     (if s = [] then Inl TokenEmpty
      else if exceeds (length s) char_ceiling then Inl TokenTooLarge
      else if length s mod 4 = 1 then Inl InvalidB64urlLength
      else case base64ToBytes h (JStr padded) of
             Inl e \<Rightarrow> Inl (InvalidB64url e)
           | Inr out \<Rightarrow> if exceeds (length out) byte_ceiling then Inl CompressedTooLarge else Inr out)"
    unfolding b64urlToBytes_JStr cc bc using pad by simp
  have ns: "\<forall>w. (\<forall>t. w \<noteq> JStr t) \<longrightarrow> b64urlToBytes h w limits = Inl TokenNotString"
    using b64urlToBytes_not_string by blast
  have ex: "\<forall>n c. exceeds n c \<longleftrightarrow> (\<exists>k. c = LimitNumber k \<and> k < int n) \<or> c = LimitNegInfinity"
    using exceeds_iff by blast
  have rest: "((\<exists>e. b64urlToBytes h (JStr s) limits = Inl e) \<longleftrightarrow>
       s = [] \<or> exceeds (length s) char_ceiling \<or> length b64 mod 4 = 1 \<or>
       (\<exists>e. base64ToBytes h (JStr padded) = Inl e) \<or>
       (\<exists>out. base64ToBytes h (JStr padded) = Inr out \<and> exceeds (length out) byte_ceiling)) \<and>
    ((\<exists>e. b64urlToBytes h (JStr s) limits = Inl e) \<or>
     (\<exists>out. b64urlToBytes h (JStr s) limits = Inr out \<and>
            base64ToBytes h (JStr padded) = Inr out)) \<and>
    (\<forall>w. (\<forall>t. w \<noteq> JStr t) \<longrightarrow> b64urlToBytes h w limits = Inl TokenNotString) \<and>
    (s = [] \<longrightarrow> b64urlToBytes h (JStr s) limits = Inl TokenEmpty) \<and>
    (s \<noteq> [] \<and> exceeds (length s) char_ceiling \<longrightarrow> b64urlToBytes h (JStr s) limits = Inl TokenTooLarge) \<and>
    (s \<noteq> [] \<and> \<not> exceeds (length s) char_ceiling \<and> length b64 mod 4 = 1 \<longrightarrow>
       b64urlToBytes h (JStr s) limits = Inl InvalidB64urlLength) \<and>
    (\<forall>e. s \<noteq> [] \<and> \<not> exceeds (length s) char_ceiling \<and> length b64 mod 4 \<noteq> 1 \<and>
         base64ToBytes h (JStr padded) = Inl e \<longrightarrow>
       b64urlToBytes h (JStr s) limits = Inl (InvalidB64url e)) \<and>
    (\<forall>out. s \<noteq> [] \<and> \<not> exceeds (length s) char_ceiling \<and> length b64 mod 4 \<noteq> 1 \<and>
         base64ToBytes h (JStr padded) = Inr out \<and> exceeds (length out) byte_ceiling \<longrightarrow>
       b64urlToBytes h (JStr s) limits = Inl CompressedTooLarge) \<and>
    (\<forall>out. s \<noteq> [] \<and> \<not> exceeds (length s) char_ceiling \<and> length b64 mod 4 \<noteq> 1 \<and>
         base64ToBytes h (JStr padded) = Inr out \<and> \<not> exceeds (length out) byte_ceiling \<longrightarrow>
       b64urlToBytes h (JStr s) limits = Inr out) \<and>
    base64ToBytes h (JStr padded) =
      (case host_atob h of
         Some decode \<Rightarrow>
           (case decode padded of None \<Rightarrow> Inl AtobThrew | Some bin \<Rightarrow> Inr (map ucast bin))
       | None \<Rightarrow>
           (case host_Buffer h of
              Some nb \<Rightarrow> Inr (buf_from_base64 nb padded)
            | None \<Rightarrow> Inl NoBase64Decoder))"
    unfolding main len
    using ns by (auto simp: base64ToBytes_JStr split: sum.splits option.splits)
  show ?thesis using rest ex by (elim conjE, intro conjI) assumption+
qed


text \<open>
  Claim C7 on the standard \<^verbatim>\<open>atob\<close>: one input for each cause, a token that uses
  \<^verbatim>\<open>-\<close> and \<^verbatim>\<open>_\<close>, and configured ceilings below and above the sizes at hand,
  negative, infinite, \<^verbatim>\<open>NaN\<close> and \<^verbatim>\<open>undefined\<close>.
\<close>

theorem b64urlToBytes_throws_exactly_when_witness:
  "b64urlToBytes browser_host (JStr (js ''YQ'')) no_token_limits = Inr [0x61] \<and>
   b64urlToBytes browser_host (JStr (js ''-_-_YQ'')) no_token_limits = Inr [0xFB, 0xFF, 0xBF, 0x61] \<and>
   b64urlToBytes browser_host JNull no_token_limits = Inl TokenNotString \<and>
   b64urlToBytes browser_host (JStr []) no_token_limits = Inl TokenEmpty \<and>
   b64urlToBytes browser_host (JStr (replicate 64001 0x61)) no_token_limits = Inl TokenTooLarge \<and>
   b64urlToBytes browser_host (JStr (replicate 64001 0x61))
     (no_token_limits\<lparr> maxTokenB64urlChars_opt := Some (LimitNumber 64001) \<rparr>) = Inl InvalidB64urlLength \<and>
   b64urlToBytes browser_host (JStr (replicate 64001 0x61))
     (no_token_limits\<lparr> maxTokenB64urlChars_opt := Some (LimitUndefined) \<rparr>) = Inl InvalidB64urlLength \<and>
   b64urlToBytes browser_host (JStr (replicate 64001 0x61))
     (no_token_limits\<lparr> maxTokenB64urlChars_opt := Some (LimitNaN) \<rparr>) = Inl InvalidB64urlLength \<and>
   b64urlToBytes browser_host (JStr (replicate 64001 0x61))
     (no_token_limits\<lparr> maxTokenB64urlChars_opt := Some (LimitInfinity) \<rparr>) = Inl InvalidB64urlLength \<and>
   b64urlToBytes browser_host (JStr (js ''AAAAAAAA''))
     (no_token_limits\<lparr> maxTokenB64urlChars_opt := Some (LimitNumber 7) \<rparr>) = Inl TokenTooLarge \<and>
   b64urlToBytes browser_host (JStr (js ''AAAAAAAA''))
     (no_token_limits\<lparr> maxTokenB64urlChars_opt := Some (LimitNumber 8) \<rparr>) = Inr [0, 0, 0, 0, 0, 0] \<and>
   b64urlToBytes browser_host (JStr (js ''YQ''))
     (no_token_limits\<lparr> maxTokenB64urlChars_opt := Some (LimitNumber (- 1)) \<rparr>) = Inl TokenTooLarge \<and>
   b64urlToBytes browser_host (JStr (js ''YQ''))
     (no_token_limits\<lparr> maxTokenB64urlChars_opt := Some (LimitNegInfinity) \<rparr>) = Inl TokenTooLarge \<and>
   b64urlToBytes browser_host (JStr (js ''YQYQY'')) no_token_limits = Inl InvalidB64urlLength \<and>
   b64urlToBytes browser_host (JStr (js ''Y*'')) no_token_limits = Inl (InvalidB64url AtobThrew) \<and>
   b64urlToBytes bare_host (JStr (js ''YQ'')) no_token_limits = Inl (InvalidB64url NoBase64Decoder) \<and>
   b64urlToBytes browser_host (JStr (js ''YQ''))
     (no_token_limits\<lparr> maxGzipBytes_opt := Some (LimitNumber 0) \<rparr>) = Inl CompressedTooLarge \<and>
   b64urlToBytes browser_host (JStr (js ''YQ''))
     (no_token_limits\<lparr> maxGzipBytes_opt := Some (LimitNumber 1) \<rparr>) = Inr [0x61] \<and>
   b64urlToBytes browser_host (JStr (js ''YQ''))
     (no_token_limits\<lparr> maxGzipBytes_opt := Some (LimitUndefined) \<rparr>) = Inr [0x61]"
proof -
  note T = b64urlToBytes_throws_exactly_when
  note ev = base64ToBytes_def browser_host_def bare_host_def atob_def strip_b64_padding_def
    is_ascii_whitespace_def b64_index_def js_simps
  have r2: "replicate 2 (0x3D :: 16 word) = [0x3D, 0x3D]" by (simp add: numeral_2_eq_2)
  \<comment> \<open>the ceilings of each configuration\<close>
  have d: "LimitNumber 64000 = (case maxTokenB64urlChars_opt (no_token_limits)
                of None \<Rightarrow> LimitNumber 64000 | Some c \<Rightarrow> c)"
    "LimitNumber 64000 = (case maxGzipBytes_opt (no_token_limits)
                of None \<Rightarrow> LimitNumber 64000 | Some c \<Rightarrow> c)"
    by (simp_all add: no_token_limits_def)
  have cbig: "LimitNumber 64001 = (case maxTokenB64urlChars_opt (no_token_limits\<lparr> maxTokenB64urlChars_opt := Some (LimitNumber 64001) \<rparr>)
                of None \<Rightarrow> LimitNumber 64000 | Some c \<Rightarrow> c)"
    "LimitNumber 64000 = (case maxGzipBytes_opt (no_token_limits\<lparr> maxTokenB64urlChars_opt := Some (LimitNumber 64001) \<rparr>)
                of None \<Rightarrow> LimitNumber 64000 | Some c \<Rightarrow> c)"
    by (simp_all add: no_token_limits_def)
  have cund: "LimitUndefined = (case maxTokenB64urlChars_opt (no_token_limits\<lparr> maxTokenB64urlChars_opt := Some (LimitUndefined) \<rparr>)
                of None \<Rightarrow> LimitNumber 64000 | Some c \<Rightarrow> c)"
    "LimitNumber 64000 = (case maxGzipBytes_opt (no_token_limits\<lparr> maxTokenB64urlChars_opt := Some (LimitUndefined) \<rparr>)
                of None \<Rightarrow> LimitNumber 64000 | Some c \<Rightarrow> c)"
    by (simp_all add: no_token_limits_def)
  have cnan: "LimitNaN = (case maxTokenB64urlChars_opt (no_token_limits\<lparr> maxTokenB64urlChars_opt := Some (LimitNaN) \<rparr>)
                of None \<Rightarrow> LimitNumber 64000 | Some c \<Rightarrow> c)"
    "LimitNumber 64000 = (case maxGzipBytes_opt (no_token_limits\<lparr> maxTokenB64urlChars_opt := Some (LimitNaN) \<rparr>)
                of None \<Rightarrow> LimitNumber 64000 | Some c \<Rightarrow> c)"
    by (simp_all add: no_token_limits_def)
  have cinf: "LimitInfinity = (case maxTokenB64urlChars_opt (no_token_limits\<lparr> maxTokenB64urlChars_opt := Some (LimitInfinity) \<rparr>)
                of None \<Rightarrow> LimitNumber 64000 | Some c \<Rightarrow> c)"
    "LimitNumber 64000 = (case maxGzipBytes_opt (no_token_limits\<lparr> maxTokenB64urlChars_opt := Some (LimitInfinity) \<rparr>)
                of None \<Rightarrow> LimitNumber 64000 | Some c \<Rightarrow> c)"
    by (simp_all add: no_token_limits_def)
  have c7: "LimitNumber 7 = (case maxTokenB64urlChars_opt (no_token_limits\<lparr> maxTokenB64urlChars_opt := Some (LimitNumber 7) \<rparr>)
                of None \<Rightarrow> LimitNumber 64000 | Some c \<Rightarrow> c)"
    "LimitNumber 64000 = (case maxGzipBytes_opt (no_token_limits\<lparr> maxTokenB64urlChars_opt := Some (LimitNumber 7) \<rparr>)
                of None \<Rightarrow> LimitNumber 64000 | Some c \<Rightarrow> c)"
    by (simp_all add: no_token_limits_def)
  have c8: "LimitNumber 8 = (case maxTokenB64urlChars_opt (no_token_limits\<lparr> maxTokenB64urlChars_opt := Some (LimitNumber 8) \<rparr>)
                of None \<Rightarrow> LimitNumber 64000 | Some c \<Rightarrow> c)"
    "LimitNumber 64000 = (case maxGzipBytes_opt (no_token_limits\<lparr> maxTokenB64urlChars_opt := Some (LimitNumber 8) \<rparr>)
                of None \<Rightarrow> LimitNumber 64000 | Some c \<Rightarrow> c)"
    by (simp_all add: no_token_limits_def)
  have cneg: "LimitNumber (- 1) = (case maxTokenB64urlChars_opt (no_token_limits\<lparr> maxTokenB64urlChars_opt := Some (LimitNumber (- 1)) \<rparr>)
                of None \<Rightarrow> LimitNumber 64000 | Some c \<Rightarrow> c)"
    "LimitNumber 64000 = (case maxGzipBytes_opt (no_token_limits\<lparr> maxTokenB64urlChars_opt := Some (LimitNumber (- 1)) \<rparr>)
                of None \<Rightarrow> LimitNumber 64000 | Some c \<Rightarrow> c)"
    by (simp_all add: no_token_limits_def)
  have cninf: "LimitNegInfinity = (case maxTokenB64urlChars_opt (no_token_limits\<lparr> maxTokenB64urlChars_opt := Some (LimitNegInfinity) \<rparr>)
                of None \<Rightarrow> LimitNumber 64000 | Some c \<Rightarrow> c)"
    "LimitNumber 64000 = (case maxGzipBytes_opt (no_token_limits\<lparr> maxTokenB64urlChars_opt := Some (LimitNegInfinity) \<rparr>)
                of None \<Rightarrow> LimitNumber 64000 | Some c \<Rightarrow> c)"
    by (simp_all add: no_token_limits_def)
  have g0: "LimitNumber 64000 = (case maxTokenB64urlChars_opt (no_token_limits\<lparr> maxGzipBytes_opt := Some (LimitNumber 0) \<rparr>)
                of None \<Rightarrow> LimitNumber 64000 | Some c \<Rightarrow> c)"
    "LimitNumber 0 = (case maxGzipBytes_opt (no_token_limits\<lparr> maxGzipBytes_opt := Some (LimitNumber 0) \<rparr>)
                of None \<Rightarrow> LimitNumber 64000 | Some c \<Rightarrow> c)"
    by (simp_all add: no_token_limits_def)
  have g1: "LimitNumber 64000 = (case maxTokenB64urlChars_opt (no_token_limits\<lparr> maxGzipBytes_opt := Some (LimitNumber 1) \<rparr>)
                of None \<Rightarrow> LimitNumber 64000 | Some c \<Rightarrow> c)"
    "LimitNumber 1 = (case maxGzipBytes_opt (no_token_limits\<lparr> maxGzipBytes_opt := Some (LimitNumber 1) \<rparr>)
                of None \<Rightarrow> LimitNumber 64000 | Some c \<Rightarrow> c)"
    by (simp_all add: no_token_limits_def)
  have gund: "LimitNumber 64000 = (case maxTokenB64urlChars_opt (no_token_limits\<lparr> maxGzipBytes_opt := Some (LimitUndefined) \<rparr>)
                of None \<Rightarrow> LimitNumber 64000 | Some c \<Rightarrow> c)"
    "LimitUndefined = (case maxGzipBytes_opt (no_token_limits\<lparr> maxGzipBytes_opt := Some (LimitUndefined) \<rparr>)
                of None \<Rightarrow> LimitNumber 64000 | Some c \<Rightarrow> c)"
    by (simp_all add: no_token_limits_def)
  \<comment> \<open>the translated and padded form of each token\<close>
  have yq: "list_all2 (\<lambda>c d. d = (if c = 0x2D then 0x2B else if c = 0x5F then 0x2F else c))
              (js ''YQ'') (js ''YQ'')"
    "js ''YQ=='' = js ''YQ'' @ replicate ((4 - length (js ''YQ'') mod 4) mod 4) 0x3D"
    by (simp_all add: js_simps r2)
  have url: "list_all2 (\<lambda>c d. d = (if c = 0x2D then 0x2B else if c = 0x5F then 0x2F else c))
              (js ''-_-_YQ'') (js ''+/+/YQ'')"
    "js ''+/+/YQ=='' = js ''+/+/YQ'' @ replicate ((4 - length (js ''+/+/YQ'') mod 4) mod 4) 0x3D"
    by (simp_all add: js_simps r2)
  have a8: "list_all2 (\<lambda>c d. d = (if c = 0x2D then 0x2B else if c = 0x5F then 0x2F else c))
              (js ''AAAAAAAA'') (js ''AAAAAAAA'')"
    "js ''AAAAAAAA'' = js ''AAAAAAAA'' @ replicate ((4 - length (js ''AAAAAAAA'') mod 4) mod 4) 0x3D"
    by (simp_all add: js_simps)
  have y5: "list_all2 (\<lambda>c d. d = (if c = 0x2D then 0x2B else if c = 0x5F then 0x2F else c))
              (js ''YQYQY'') (js ''YQYQY'')"
    by (simp add: js_simps)
  have ys: "list_all2 (\<lambda>c d. d = (if c = 0x2D then 0x2B else if c = 0x5F then 0x2F else c))
              (js ''Y*'') (js ''Y*'')"
    "js ''Y*=='' = js ''Y*'' @ replicate ((4 - length (js ''Y*'') mod 4) mod 4) 0x3D"
    by (simp_all add: js_simps r2)
  have big: "list_all2 (\<lambda>c d. d = (if c = 0x2D then 0x2B else if c = 0x5F then 0x2F else c))
              (replicate 64001 (0x61 :: 16 word)) (replicate 64001 0x61)"
    by (simp add: translated_is_map)
  have e: "list_all2 (\<lambda>c d. d = (if c = 0x2D then 0x2B else if c = 0x5F then 0x2F else c))
              ([] :: jsstring) []"
    by simp
  have w1: "b64urlToBytes browser_host (JStr (js ''YQ'')) no_token_limits = Inr [0x61]"
    using T[OF d yq, of browser_host] by (simp add: ev)
  have w2: "b64urlToBytes browser_host (JStr (js ''-_-_YQ'')) no_token_limits = Inr [0xFB, 0xFF, 0xBF, 0x61]"
    using T[OF d url, of browser_host] by (simp add: ev)
  have w3: "b64urlToBytes browser_host JNull no_token_limits = Inl TokenNotString"
    using T[OF d e refl, of browser_host] by simp
  have w4: "b64urlToBytes browser_host (JStr []) no_token_limits = Inl TokenEmpty"
    using T[OF d e refl, of browser_host] by simp
  have w5: "b64urlToBytes browser_host (JStr (replicate 64001 0x61)) no_token_limits = Inl TokenTooLarge"
    using T[OF d big refl, of browser_host] by simp
  have w6: "b64urlToBytes browser_host (JStr (replicate 64001 0x61))
     (no_token_limits\<lparr> maxTokenB64urlChars_opt := Some (LimitNumber 64001) \<rparr>) = Inl InvalidB64urlLength"
    using T[OF cbig big refl, of browser_host] by simp
  have w6u: "b64urlToBytes browser_host (JStr (replicate 64001 0x61))
     (no_token_limits\<lparr> maxTokenB64urlChars_opt := Some (LimitUndefined) \<rparr>) = Inl InvalidB64urlLength"
    using T[OF cund big refl, of browser_host] by simp
  have w6n: "b64urlToBytes browser_host (JStr (replicate 64001 0x61))
     (no_token_limits\<lparr> maxTokenB64urlChars_opt := Some (LimitNaN) \<rparr>) = Inl InvalidB64urlLength"
    using T[OF cnan big refl, of browser_host] by simp
  have w6i: "b64urlToBytes browser_host (JStr (replicate 64001 0x61))
     (no_token_limits\<lparr> maxTokenB64urlChars_opt := Some (LimitInfinity) \<rparr>) = Inl InvalidB64urlLength"
    using T[OF cinf big refl, of browser_host] by simp
  have w7: "b64urlToBytes browser_host (JStr (js ''AAAAAAAA''))
     (no_token_limits\<lparr> maxTokenB64urlChars_opt := Some (LimitNumber 7) \<rparr>) = Inl TokenTooLarge"
    using T[OF c7 a8, of browser_host] by (simp add: js_simps)
  have w8: "b64urlToBytes browser_host (JStr (js ''AAAAAAAA''))
     (no_token_limits\<lparr> maxTokenB64urlChars_opt := Some (LimitNumber 8) \<rparr>) = Inr [0, 0, 0, 0, 0, 0]"
    using T[OF c8 a8, of browser_host] by (simp add: ev)
  have w8m: "b64urlToBytes browser_host (JStr (js ''YQ''))
     (no_token_limits\<lparr> maxTokenB64urlChars_opt := Some (LimitNumber (- 1)) \<rparr>) = Inl TokenTooLarge"
    using T[OF cneg yq, of browser_host] by (simp add: js_simps)
  have w8i: "b64urlToBytes browser_host (JStr (js ''YQ''))
     (no_token_limits\<lparr> maxTokenB64urlChars_opt := Some (LimitNegInfinity) \<rparr>) = Inl TokenTooLarge"
    using T[OF cninf yq, of browser_host] by (simp add: js_simps)
  have w9: "b64urlToBytes browser_host (JStr (js ''YQYQY'')) no_token_limits = Inl InvalidB64urlLength"
    using T[OF d y5 refl, of browser_host] by (simp add: js_simps)
  have w10: "b64urlToBytes browser_host (JStr (js ''Y*'')) no_token_limits = Inl (InvalidB64url AtobThrew)"
    using T[OF d ys, of browser_host] by (simp add: ev)
  have w11: "b64urlToBytes bare_host (JStr (js ''YQ'')) no_token_limits = Inl (InvalidB64url NoBase64Decoder)"
    using T[OF d yq, of bare_host] by (simp add: ev)
  have w12: "b64urlToBytes browser_host (JStr (js ''YQ''))
     (no_token_limits\<lparr> maxGzipBytes_opt := Some (LimitNumber 0) \<rparr>) = Inl CompressedTooLarge"
    using T[OF g0 yq, of browser_host] by (simp add: ev)
  have w13: "b64urlToBytes browser_host (JStr (js ''YQ''))
     (no_token_limits\<lparr> maxGzipBytes_opt := Some (LimitNumber 1) \<rparr>) = Inr [0x61]"
    using T[OF g1 yq, of browser_host] by (simp add: ev)
  have w14: "b64urlToBytes browser_host (JStr (js ''YQ''))
     (no_token_limits\<lparr> maxGzipBytes_opt := Some (LimitUndefined) \<rparr>) = Inr [0x61]"
    using T[OF gund yq, of browser_host] by (simp add: ev)
  show ?thesis
    using w1 w2 w3 w4 w5 w6 w6u w6n w6i w7 w8 w8m w8i w9 w10 w11 w12 w13 w14 by simp
qed

text \<open>The sample token decodes to \<^verbatim>\<open>a.b.c\<close>.\<close>

lemma sample_b64: "b64urlToBytes browser_host (JStr sample_token) no_token_limits = Inr gzip_of_hex_abc"
  by (simp add: b64urlToBytes_def default_token_lim sample_token_def js_simps b64url_to_b64_chars_def
      b64_with_padding_def base64ToBytes_def browser_host_def atob_def strip_b64_padding_def
      is_ascii_whitespace_def b64_index_def gzip_of_hex_abc_def Let_def)

lemma sample_hex: "hexToUtf8String browser_host (JStr (js ''612e622e63'')) no_token_limits = Inr (js ''a.b.c'')"
  by (simp add: hexToUtf8String_def default_token_lim js_simps is_hex_digit_def hex_digit_value_def
      browser_host_def TextDecoder_decode_def code_point_to_utf16_def Let_def)

lemma sample_ungzip: "pako_ungzip browser_host gzip_of_hex_abc = Some (js ''612e622e63'')"
  by (simp add: browser_host_def pako_ungzip_on_samples_def gzip_of_hex_abc_def gzip_of_empty_def)

lemma sample_decode: "decode_token browser_host (JStr sample_token) = Inr (js ''a.b.c'')"
proof -
  have "length (js ''a.b.c'') \<noteq> 0" by (simp add: js_simps)
  then show ?thesis
    by (simp add: decode_token_def sample_b64 sample_ungzip sample_hex)
qed

section \<open>Encoding and decoding are inverse\<close>

lemma hex_digit_table:
  "list_all (\<lambda>d. is_hex_digit (hex_digit_lower d) \<and> hex_digit_value (hex_digit_lower d) = d) [0..<16]"
  by code_simp

lemma hex_digit_lower_ok:
  assumes "d < 16"
  shows "is_hex_digit (hex_digit_lower d) \<and> hex_digit_value (hex_digit_lower d) = d"
  using hex_digit_table assms by (simp add: list_all_iff)

lemma unat_byte_less: "unat (x::byte) < 256"
  using unsigned_less[of x, where ?'a = nat] by simp

lemma byte_to_hex2_ok:
  "list_all is_hex_digit (byte_to_hex2 x) \<and> hex_pairs_to_bytes (byte_to_hex2 x @ rest) = x # hex_pairs_to_bytes rest"
proof -
  have a: "unat x div 16 < 16" using unat_byte_less[of x] by arith
  have b: "unat x mod 16 < 16" by simp
  have "16 * (unat x div 16) + unat x mod 16 = unat x" by simp
  then show ?thesis
    using hex_digit_lower_ok[OF a] hex_digit_lower_ok[OF b]
    by (simp add: byte_to_hex2_def)
qed

lemma hex_round_trip:
  "hex_pairs_to_bytes (concat (map byte_to_hex2 bs)) = bs \<and>
   list_all is_hex_digit (concat (map byte_to_hex2 bs)) \<and>
   length (concat (map byte_to_hex2 bs)) = 2 * length bs"
proof (induction bs)
  case Nil
  then show ?case by simp
next
  case (Cons x bs)
  then show ?case using byte_to_hex2_ok[of x "concat (map byte_to_hex2 bs)"]
    by (simp add: byte_to_hex2_def)
qed

lemma b64_byte1:
  fixes x y :: nat
  shows "y < 256 \<Longrightarrow> x div 4 * 4 + (x mod 4 * 16 + y div 16) div 16 = x"
  by simp

lemma b64_byte2:
  fixes x y z :: nat
  assumes "y < 256" "z < 256"
  shows "(x mod 4 * 16 + y div 16) mod 16 * 16 + (y mod 16 * 4 + z div 64) div 4 = y"
proof -
  have y: "y div 16 < 16" using assms by simp
  have z: "z div 64 < 4" using assms by simp
  show ?thesis using y z by simp
qed

lemma b64_byte3:
  fixes y z :: nat
  assumes "z < 256"
  shows "(y mod 16 * 4 + z div 64) mod 4 * 64 + z mod 64 = z"
proof -
  have z: "z div 64 < 4" using assms by simp
  show ?thesis using z by simp
qed

lemma sextets_round_trip:
  "list_all (\<lambda>b. b < 256) bs \<Longrightarrow> sextets_to_bytes (bytes_to_sextets bs) = bs"
proof (induction bs rule: bytes_to_sextets.induct)
  case (1 x y z rest)
  then have b: "y < 256" "z < 256" and r: "list_all (\<lambda>b. b < 256) rest" by simp_all
  show ?case using "1.IH"[OF r] b64_byte1[OF b(1), of x] b64_byte2[OF b, of x] b64_byte3[OF b(2), of y]
    by simp
next
  case (2 x y)
  then have b: "y < 256" by simp
  from b64_byte1[OF b, of x] b64_byte2[OF b, of 0 x] show ?case by simp
next
  case (3 x)
  from b64_byte1[of 0 x] show ?case by simp
next
  case 4
  then show ?case by simp
qed

lemma sextet_bounds:
  fixes x y z :: nat
  assumes "x < 256" "y < 256" "z < 256"
  shows "x div 4 < 64" "x mod 4 * 16 + y div 16 < 64" "y mod 16 * 4 + z div 64 < 64" "z mod 64 < 64"
proof -
  have y: "y div 16 < 16" using assms by simp
  have z: "z div 64 < 4" using assms by simp
  have x4: "x mod 4 < 4" and y16: "y mod 16 < 16" by simp_all
  show "x div 4 < 64" using assms by simp
  show "x mod 4 * 16 + y div 16 < 64" using y x4 by linarith
  show "y mod 16 * 4 + z div 64 < 64" using z y16 by linarith
  show "z mod 64 < 64" by simp
qed

lemma sextets_bound:
  "list_all (\<lambda>b. b < 256) bs \<Longrightarrow> list_all (\<lambda>n. n < 64) (bytes_to_sextets bs)"
proof (induction bs rule: bytes_to_sextets.induct)
  case (1 x y z rest)
  then have b: "x < 256" "y < 256" "z < 256" and r: "list_all (\<lambda>b. b < 256) rest" by simp_all
  show ?case using "1.IH"[OF r] sextet_bounds[OF b] by simp
next
  case (2 x y)
  then have b: "x < 256" "y < 256" by simp_all
  show ?case using sextet_bounds(1,2,3)[OF b, of 0] by simp
next
  case (3 x)
  then have b: "x < 256" by simp
  show ?case using sextet_bounds(1,2)[OF b, of 0 0] by simp
next
  case 4
  then show ?case by simp
qed

lemma length_bytes_to_sextets:
  "length (bytes_to_sextets bs) = (4 * length bs + 2) div 3"
  by (induction bs rule: bytes_to_sextets.induct) simp_all

lemma b64_alphabet_table: "list_all (\<lambda>n. b64_index (b64_char n) = Some n) [0..<64]"
  by code_simp

lemma b64_index_char: "n < 64 \<Longrightarrow> b64_index (b64_char n) = Some n"
  using b64_alphabet_table by (simp add: list_all_iff)

lemma b64_index_special:
  "b64_index 0x3D = None" "b64_index 0x2D = None" "b64_index 0x5F = None"
  "b64_index 0x09 = None" "b64_index 0x0A = None" "b64_index 0x0C = None"
  "b64_index 0x0D = None" "b64_index 0x20 = None"
  by (simp_all add: b64_index_def)

lemma base64_encode_body:
  "base64_encode bs = b64_body bs @ replicate ((3 - length bs mod 3) mod 3) 0x3D"
  by (simp add: base64_encode_def)

lemma bytes_bound: "list_all (\<lambda>b. b < 256) (map unat (bs :: byte list))"
  by (simp add: list_all_iff unat_byte_less)

lemma body_alphabet: "list_all (\<lambda>c. b64_index c \<noteq> None) (b64_body bs)"
  using sextets_bound[OF bytes_bound[of bs]]
  by (auto simp: b64_body_def list_all_iff b64_index_char)

lemma body_indices: "map (\<lambda>c. the (b64_index c)) (b64_body bs) = bytes_to_sextets (map unat bs)"
  using sextets_bound[OF bytes_bound[of bs]]
  by (auto simp: b64_body_def list_all_iff b64_index_char intro!: map_idI)

lemma alphabet_not_special:
  "b64_index c \<noteq> None \<Longrightarrow> c \<noteq> 0x3D \<and> c \<noteq> 0x2D \<and> c \<noteq> 0x5F \<and> \<not> is_ascii_whitespace c"
  using b64_index_special by (auto simp: is_ascii_whitespace_def)

lemma length_body: "length (b64_body bs) = (4 * length bs + 2) div 3"
  by (simp add: b64_body_def length_bytes_to_sextets)

lemma length_sextets_mod4:
  "length (bytes_to_sextets xs) mod 4 =
     (if length xs mod 3 = 0 then 0 else if length xs mod 3 = 1 then 2 else 3)"
  by (induction xs rule: bytes_to_sextets.induct) simp_all

lemma length_body_mod4:
  "length (b64_body bs) mod 4 = (if length bs mod 3 = 0 then 0 else if length bs mod 3 = 1 then 2 else 3)"
  using length_sextets_mod4[of "map unat bs"] by (simp add: b64_body_def)

lemma body_nonempty: "bs \<noteq> [] \<Longrightarrow> b64_body bs \<noteq> []"
  by (cases "map unat bs" rule: bytes_to_sextets.cases) (auto simp: b64_body_def)

lemma strip_trailing_pad:
  assumes "list_all (\<lambda>c. c \<noteq> 0x3D) ys"
  shows "rev (dropWhile (\<lambda>c. c = 0x3D) (rev (ys @ replicate k (0x3D :: 16 word)))) = ys"
proof -
  have a: "dropWhile (\<lambda>c. c = 0x3D) (replicate k (0x3D :: 16 word) @ zs) = dropWhile (\<lambda>c. c = 0x3D) zs" for zs
    by (induction k) simp_all
  have b: "dropWhile (\<lambda>c. c = 0x3D) (rev ys) = rev ys"
  proof (cases "rev ys")
    case Nil
    then show ?thesis by simp
  next
    case (Cons z zs)
    then have "z \<in> set ys" by (metis list.set_intros(1) set_rev)
    with assms have "z \<noteq> 0x3D" by (simp add: list_all_iff)
    with Cons show ?thesis by simp
  qed
  show ?thesis by (simp add: a b)
qed

lemma bytesToB64url_body: "bytesToB64url bs = map to_url_char (b64_body bs)"
proof -
  have ne: "list_all (\<lambda>c. c \<noteq> 0x3D) (map to_url_char (b64_body bs))"
    using body_alphabet[of bs] alphabet_not_special
    by (auto simp: list_all_iff to_url_char_def)
  have "map to_url_char (base64_encode bs) =
        map to_url_char (b64_body bs) @ replicate ((3 - length bs mod 3) mod 3) 0x3D"
    by (simp add: base64_encode_body to_url_char_def)
  then show ?thesis
    unfolding bytesToB64url_def Let_def using strip_trailing_pad[OF ne] by simp
qed

lemma from_url_to_url: "b64url_to_b64_chars (map to_url_char (b64_body bs)) = b64_body bs"
proof -
  have "(if to_url_char c = 0x2D then 0x2B else if to_url_char c = 0x5F then 0x2F else to_url_char c) = c"
    if "b64_index c \<noteq> None" for c
    using alphabet_not_special[OF that] by (simp add: to_url_char_def)
  then show ?thesis
    using body_alphabet[of bs]
    by (auto simp: b64url_to_b64_chars_def list_all_iff intro!: map_idI)
qed

lemma replicate_2: "replicate 2 x = [x, x]"
  by (simp add: numeral_2_eq_2)

lemma padding_restored:
  "b64_with_padding (b64_body bs) = b64_body bs @ replicate ((3 - length bs mod 3) mod 3) 0x3D"
proof -
  have "length bs mod 3 = 0 \<or> length bs mod 3 = 1 \<or> length bs mod 3 = 2" by arith
  then show ?thesis
    by (elim disjE) (simp_all add: b64_with_padding_def length_body_mod4 replicate_2)
qed

lemma no_pad_in_drop:
  assumes "list_all (\<lambda>c. c \<noteq> (0x3D :: 16 word)) ys"
  shows "drop n ys \<noteq> 0x3D # zs"
proof
  assume "drop n ys = 0x3D # zs"
  then have "0x3D \<in> set (drop n ys)" by simp
  then have "0x3D \<in> set ys" using set_drop_subset by fast
  with assms show False by (auto simp: list_all_iff)
qed

lemma strip_b64_padding_body:
  assumes ne: "list_all (\<lambda>c. c \<noteq> (0x3D :: 16 word)) ys"
    and k: "k \<le> 2" and len: "(length ys + k) mod 4 = 0"
  shows "strip_b64_padding (ys @ replicate k 0x3D) = ys"
proof -
  from k have "k = 0 \<or> k = 1 \<or> k = 2" by arith
  then show ?thesis
  proof (elim disjE)
    assume k0: "k = 0"
    show ?thesis using len no_pad_in_drop[OF ne]
      by (simp add: strip_b64_padding_def k0)
  next
    assume k1: "k = 1"
    have "drop (length ys - Suc 0) ys \<noteq> [0x3D]" using no_pad_in_drop[OF ne] by blast
    then show ?thesis using len no_pad_in_drop[OF ne]
      by (simp add: strip_b64_padding_def k1)
  next
    assume k2: "k = 2"
    show ?thesis using len
      by (simp add: strip_b64_padding_def k2 replicate_2)
  qed
qed

lemma ucast_byte_round: "ucast (ucast (b :: byte) :: 16 word) = b"
  by (simp add: ucast_up_ucast_id is_up)

lemma pad_count: "(length (b64_body bs) + (3 - length bs mod 3) mod 3) mod 4 = 0 \<and> (3 - length bs mod 3) mod 3 \<le> 2"
proof -
  have c: "length bs mod 3 = 0 \<or> length bs mod 3 = 1 \<or> length bs mod 3 = 2" by arith
  have m: "(length (b64_body bs) + k) mod 4 = (length (b64_body bs) mod 4 + k) mod 4" for k
    by (simp add: mod_add_left_eq)
  from c show ?thesis
    unfolding m length_body_mod4 by (elim disjE) simp_all
qed

lemma atob_base64_encode: "atob (base64_encode bs) = Some (map of_nat (map unat bs))"
proof -
  let ?body = "b64_body bs" and ?k = "(3 - length bs mod 3) mod 3"
  have alph: "list_all (\<lambda>c. b64_index c \<noteq> None) ?body" by (rule body_alphabet)
  have nopad: "list_all (\<lambda>c. c \<noteq> 0x3D) ?body"
    using alph alphabet_not_special by (auto simp: list_all_iff)
  have nows: "filter (\<lambda>c. \<not> is_ascii_whitespace c) (?body @ replicate ?k 0x3D) = ?body @ replicate ?k 0x3D"
    using alph alphabet_not_special by (auto simp: list_all_iff is_ascii_whitespace_def intro!: filter_True)
  have strip: "strip_b64_padding (?body @ replicate ?k 0x3D) = ?body"
    using pad_count[of bs] by (intro strip_b64_padding_body[OF nopad]) simp_all
  have m: "length ?body mod 4 \<noteq> 1" by (simp add: length_body_mod4)
  have dec: "sextets_to_bytes (map (\<lambda>c. the (b64_index c)) ?body) = map unat bs"
    by (simp add: body_indices sextets_round_trip[OF bytes_bound])
  show ?thesis
    unfolding atob_def base64_encode_body nows strip Let_def using m alph dec by simp
qed

lemma base64ToBytes_base64_encode:
  "host_atob h = Some atob \<Longrightarrow> base64ToBytes h (JStr (base64_encode bs)) = Inr bs"
  by (simp add: base64ToBytes_def atob_base64_encode comp_def ucast_byte_round map_idI)

lemma repadded: "b64_with_padding (b64url_to_b64_chars (bytesToB64url bs)) = base64_encode bs"
  by (simp add: bytesToB64url_body from_url_to_url padding_restored base64_encode_body)

lemma length_bytesToB64url: "length (bytesToB64url bs) = (4 * length bs + 2) div 3"
  by (simp add: bytesToB64url_body length_body)

lemma b64urlToBytes_bytesToB64url:
  assumes "host_atob h = Some atob" and "bs \<noteq> []"
    and "\<not> exceeds (length (bytesToB64url bs)) (maxTokenB64urlChars (token_lim limits))"
    and "\<not> exceeds (length bs) (maxGzipBytes (token_lim limits))"
  shows "b64urlToBytes h (JStr (bytesToB64url bs)) limits = Inr bs"
proof -
  have ne: "bytesToB64url bs \<noteq> []"
    using body_nonempty[OF assms(2)] by (simp add: bytesToB64url_body)
  have m: "length (bytesToB64url bs) mod 4 \<noteq> 1"
    by (simp add: bytesToB64url_body length_body_mod4)
  show ?thesis
    using ne m assms(3,4)
    by (simp add: b64urlToBytes_JStr repadded base64ToBytes_base64_encode[OF assms(1)])
qed

lemma hexToUtf8String_utf8ToHex:
  assumes "enc s \<noteq> []"
    and "\<not> exceeds (length (utf8ToHex enc s)) (maxInflatedChars (token_lim limits))"
  shows "hexToUtf8String h (JStr (utf8ToHex enc s)) limits = Inr (host_utf8_decode h (enc s))"
proof -
  note rt = hex_round_trip[of "enc s"]
  have len: "length (utf8ToHex enc s) = 2 * length (enc s)" using rt by (simp add: utf8ToHex_def)
  have ne: "utf8ToHex enc s \<noteq> []" using assms(1) len by (cases "enc s") auto
  have ev: "length (utf8ToHex enc s) mod 2 = 0" using len by simp
  have hx: "list_all is_hex_digit (utf8ToHex enc s)" "hex_pairs_to_bytes (utf8ToHex enc s) = enc s"
    using rt by (simp_all add: utf8ToHex_def)
  show ?thesis
    using ne ev hx assms(2)
    by (simp add: hexToUtf8String_def host_utf8_decode_def Let_def split: option.splits)
qed

section \<open>Properties of the backend URL policy\<close>

lemma origin_allowed_iff:
  "origin_allowed p u ao \<longleftrightarrow>
     (\<exists>entries s ou. ao = JArr entries \<and> JStr s \<in> set entries \<and>
        new_URL p s None = Some ou \<and> url_origin ou = url_origin u)"
proof -
  have entry: "origin_entry_matches p u e \<longleftrightarrow>
      (\<exists>s ou. e = JStr s \<and> new_URL p s None = Some ou \<and> url_origin ou = url_origin u)" for e
    by (cases e) (auto split: option.splits)
  show ?thesis
    by (cases ao) (auto simp: list_ex_iff entry)
qed

lemma new_URL_base_parses:
  "new_URL p raw (Some base) = Some u \<Longrightarrow> \<exists>pg. new_URL p base None = Some pg"
  by (auto split: option.splits)

text \<open>
  Claim C5, as amended.  For every raw URL and every option set whose \<open>pageHref\<close> and
  \<open>pageOrigin\<close> are non-empty: when the URL resolved against \<open>pageHref\<close> has the origin
  \<open>pageOrigin\<close>, the call succeeds exactly when the resolved scheme is https or the
  page's scheme, and returns the resolved absolute URL; when the resolved origin differs,
  the call throws unless \<open>allowCrossOrigin\<close> is true and some string entry of
  \<open>allowedOrigins\<close> parses to the origin of the resolved URL, and then it still throws
  unless the resolved scheme is https.  (An input that does not resolve is rejected as
  invalid.)
\<close>

theorem resolveBackendVerifyUrl_policy:
  assumes href: "pageHref opts \<noteq> []" and origin: "pageOrigin opts \<noteq> []"
  shows
    "(new_URL p raw (Some (pageHref opts)) = None \<longrightarrow>
        resolveBackendVerifyUrl p raw opts = Inl InvalidUrl) \<and>
     (\<forall>u. new_URL p raw (Some (pageHref opts)) = Some u \<and> url_origin u = pageOrigin opts \<longrightarrow>
        (\<exists>pg. new_URL p (pageHref opts) None = Some pg \<and>
           resolveBackendVerifyUrl p raw opts =
             (if url_protocol u = https_protocol \<or> url_protocol u = url_protocol pg
              then Inr (url_href u) else Inl ProtocolMismatch))) \<and>
     (\<forall>u. new_URL p raw (Some (pageHref opts)) = Some u \<and> url_origin u \<noteq> pageOrigin opts \<longrightarrow>
        resolveBackendVerifyUrl p raw opts =
          (if \<not> allowCrossOrigin opts then Inl SameOriginByDefault
           else if \<not> (\<exists>entries s ou. allowedOrigins opts = JArr entries \<and> JStr s \<in> set entries \<and>
                          new_URL p s None = Some ou \<and> url_origin ou = url_origin u)
             then Inl OriginNotAllowed
           else if url_protocol u \<noteq> https_protocol then Inl MustBeHttps
           else Inr (url_href u)))"
proof (intro conjI allI impI)
  show "resolveBackendVerifyUrl p raw opts = Inl InvalidUrl"
    if "new_URL p raw (Some (pageHref opts)) = None"
    using that href origin by (simp add: resolveBackendVerifyUrl_def)
next
  fix u
  assume a: "new_URL p raw (Some (pageHref opts)) = Some u \<and> url_origin u = pageOrigin opts"
  then obtain pg where pg: "new_URL p (pageHref opts) None = Some pg"
    using new_URL_base_parses by blast
  show "\<exists>pg. new_URL p (pageHref opts) None = Some pg \<and>
           resolveBackendVerifyUrl p raw opts =
             (if url_protocol u = https_protocol \<or> url_protocol u = url_protocol pg
              then Inr (url_href u) else Inl ProtocolMismatch)"
    using a pg href origin by (auto simp: resolveBackendVerifyUrl_def Let_def)
next
  fix u
  assume a: "new_URL p raw (Some (pageHref opts)) = Some u \<and> url_origin u \<noteq> pageOrigin opts"
  then obtain pg where pg: "new_URL p (pageHref opts) None = Some pg"
    using new_URL_base_parses by blast
  show "resolveBackendVerifyUrl p raw opts =
          (if \<not> allowCrossOrigin opts then Inl SameOriginByDefault
           else if \<not> (\<exists>entries s ou. allowedOrigins opts = JArr entries \<and> JStr s \<in> set entries \<and>
                          new_URL p s None = Some ou \<and> url_origin ou = url_origin u)
             then Inl OriginNotAllowed
           else if url_protocol u \<noteq> https_protocol then Inl MustBeHttps
           else Inr (url_href u))"
    unfolding origin_allowed_iff[symmetric]
    using a pg href origin by (simp add: resolveBackendVerifyUrl_def Let_def)
qed

lemma parse_rp: "url_parser_on_samples (js ''https://rp.example/path'') b =
    Some (mk_url ''https:'' ''https://rp.example'' ''https://rp.example/path'')"
  by (simp add: url_parser_on_samples_def)

lemma parse_api_origin: "url_parser_on_samples (js ''https://api.example'') b =
    Some (mk_url ''https:'' ''https://api.example'' ''https://api.example/'')"
  by (simp add: url_parser_on_samples_def js_simps)

lemma parse_api: "url_parser_on_samples (js ''https://api.example/verify'') b =
    Some (mk_url ''https:'' ''https://api.example'' ''https://api.example/verify'')"
  by (simp add: url_parser_on_samples_def js_simps)

lemma parse_rel: "url_parser_on_samples (js ''/api/verify'') (Some b) =
    Some \<lparr> url_protocol = url_protocol b, url_origin = url_origin b,
           url_href = url_origin b @ js ''/api/verify'' \<rparr>"
  by (simp add: url_parser_on_samples_def js_simps)

text \<open>
  Claim C5 as stated, for every option set, fails: with an empty \<open>pageOrigin\<close> the
  resolved origin differs from it, cross-origin use is allowed, the origin is on the
  allowlist and the scheme is https, and still the call throws
  (\<^verbatim>\<open>pageOrigin required\<close>).
\<close>

theorem resolveBackendVerifyUrl_empty_pageOrigin_counterexample:
  "new_URL url_parser_on_samples (js ''https://api.example/verify'')
      (Some (js ''https://rp.example/path'')) =
     Some (mk_url ''https:'' ''https://api.example'' ''https://api.example/verify'') \<and>
   url_origin (mk_url ''https:'' ''https://api.example'' ''https://api.example/verify'') \<noteq> [] \<and>
   url_protocol (mk_url ''https:'' ''https://api.example'' ''https://api.example/verify'') = https_protocol \<and>
   origin_allowed url_parser_on_samples
     (mk_url ''https:'' ''https://api.example'' ''https://api.example/verify'')
     (JArr [JStr (js ''https://api.example'')]) \<and>
   resolveBackendVerifyUrl url_parser_on_samples (js ''https://api.example/verify'')
     \<lparr> pageHref = js ''https://rp.example/path'', pageOrigin = [],
       allowCrossOrigin = True, allowedOrigins = JArr [JStr (js ''https://api.example'')] \<rparr>
     = Inl PageOriginRequired"
proof (intro conjI)
  show "new_URL url_parser_on_samples (js ''https://api.example/verify'')
      (Some (js ''https://rp.example/path'')) =
     Some (mk_url ''https:'' ''https://api.example'' ''https://api.example/verify'')"
    by (simp add: parse_api parse_rp)
  show "url_origin (mk_url ''https:'' ''https://api.example'' ''https://api.example/verify'') \<noteq> []"
    by (simp add: mk_url_def js_simps)
  show "url_protocol (mk_url ''https:'' ''https://api.example'' ''https://api.example/verify'') = https_protocol"
    by (simp add: mk_url_def https_protocol_def)
  show "origin_allowed url_parser_on_samples
     (mk_url ''https:'' ''https://api.example'' ''https://api.example/verify'')
     (JArr [JStr (js ''https://api.example'')])"
    by (simp add: parse_api_origin) (simp add: mk_url_def)
  show "resolveBackendVerifyUrl url_parser_on_samples (js ''https://api.example/verify'')
     \<lparr> pageHref = js ''https://rp.example/path'', pageOrigin = [],
       allowCrossOrigin = True, allowedOrigins = JArr [JStr (js ''https://api.example'')] \<rparr>
     = Inl PageOriginRequired"
    by (simp add: resolveBackendVerifyUrl_def js_simps)
qed


lemma parse_http_api: "url_parser_on_samples (js ''http://api.example/verify'') b =
    Some (mk_url ''http:'' ''http://api.example'' ''http://api.example/verify'')"
  by (simp add: url_parser_on_samples_def js_simps)

lemma parse_http_api_origin: "url_parser_on_samples (js ''http://api.example'') b =
    Some (mk_url ''http:'' ''http://api.example'' ''http://api.example/'')"
  by (simp add: url_parser_on_samples_def js_simps)

lemma parse_other: "url_parser_on_samples (js ''https://other.example'') b =
    Some (mk_url ''https:'' ''https://other.example'' ''https://other.example/'')"
  by (simp add: url_parser_on_samples_def js_simps)

lemma parse_bad: "url_parser_on_samples (js ''http://'') b = None"
  by (simp add: url_parser_on_samples_def js_simps)

theorem resolveBackendVerifyUrl_policy_witness:
  "resolveBackendVerifyUrl url_parser_on_samples (js ''/api/verify'')
     \<lparr> pageHref = js ''https://rp.example/path'', pageOrigin = js ''https://rp.example'',
       allowCrossOrigin = False, allowedOrigins = JArr [] \<rparr>
     = Inr (js ''https://rp.example/api/verify'') \<and>
   resolveBackendVerifyUrl url_parser_on_samples (js ''https://api.example/verify'')
     \<lparr> pageHref = js ''https://rp.example/path'', pageOrigin = js ''https://rp.example'',
       allowCrossOrigin = False, allowedOrigins = JArr [] \<rparr>
     = Inl SameOriginByDefault \<and>
   resolveBackendVerifyUrl url_parser_on_samples (js ''https://api.example/verify'')
     \<lparr> pageHref = js ''https://rp.example/path'', pageOrigin = js ''https://rp.example'',
       allowCrossOrigin = True, allowedOrigins = JArr [JStr (js ''https://other.example'')] \<rparr>
     = Inl OriginNotAllowed \<and>
   resolveBackendVerifyUrl url_parser_on_samples (js ''https://api.example/verify'')
     \<lparr> pageHref = js ''https://rp.example/path'', pageOrigin = js ''https://rp.example'',
       allowCrossOrigin = True, allowedOrigins = JArr [JStr (js ''https://api.example'')] \<rparr>
     = Inr (js ''https://api.example/verify'') \<and>
   resolveBackendVerifyUrl url_parser_on_samples (js ''http://api.example/verify'')
     \<lparr> pageHref = js ''https://rp.example/path'', pageOrigin = js ''https://rp.example'',
       allowCrossOrigin = True, allowedOrigins = JArr [JStr (js ''http://api.example'')] \<rparr>
     = Inl MustBeHttps \<and>
   resolveBackendVerifyUrl url_parser_on_samples (js ''http://'')
     \<lparr> pageHref = js ''https://rp.example/path'', pageOrigin = js ''https://rp.example'',
       allowCrossOrigin = False, allowedOrigins = JArr [] \<rparr>
     = Inl InvalidUrl"
proof -
  note T = resolveBackendVerifyUrl_policy
  note P = parse_rp parse_api parse_api_origin parse_rel parse_http_api parse_http_api_origin
    parse_other parse_bad
  have ne: "js ''https://rp.example/path'' \<noteq> []" "js ''https://rp.example'' \<noteq> []"
    by (simp_all add: js_simps)
  have o1: "js ''https://api.example'' \<noteq> js ''https://rp.example''"
    "js ''http://api.example'' \<noteq> js ''https://rp.example''"
    "js ''https://other.example'' \<noteq> js ''https://api.example''"
    "js ''http:'' \<noteq> js ''https:''"
    by (simp_all add: js_simps)
  let ?o = "\<lambda>a es. \<lparr> pageHref = js ''https://rp.example/path'', pageOrigin = js ''https://rp.example'',
       allowCrossOrigin = a, allowedOrigins = JArr es \<rparr>"
  have c1: "resolveBackendVerifyUrl url_parser_on_samples (js ''/api/verify'') (?o False []) =
      Inr (js ''https://rp.example/api/verify'')"
    using T[of "?o False []" url_parser_on_samples "js ''/api/verify''"] ne
    by (simp add: P mk_url_def https_protocol_def js_append)
  have c2: "resolveBackendVerifyUrl url_parser_on_samples (js ''https://api.example/verify'')
      (?o False []) = Inl SameOriginByDefault"
    using T[of "?o False []" url_parser_on_samples "js ''https://api.example/verify''"] ne o1
    by (simp add: P mk_url_def)
  have c3: "resolveBackendVerifyUrl url_parser_on_samples (js ''https://api.example/verify'')
      (?o True [JStr (js ''https://other.example'')]) = Inl OriginNotAllowed"
    using T[of "?o True [JStr (js ''https://other.example'')]" url_parser_on_samples
        "js ''https://api.example/verify''"] ne o1
    by (simp add: P mk_url_def)
  have c4: "resolveBackendVerifyUrl url_parser_on_samples (js ''https://api.example/verify'')
      (?o True [JStr (js ''https://api.example'')]) = Inr (js ''https://api.example/verify'')"
    using T[of "?o True [JStr (js ''https://api.example'')]" url_parser_on_samples
        "js ''https://api.example/verify''"] ne o1
    by (simp add: P mk_url_def https_protocol_def)
  have c5: "resolveBackendVerifyUrl url_parser_on_samples (js ''http://api.example/verify'')
      (?o True [JStr (js ''http://api.example'')]) = Inl MustBeHttps"
    using T[of "?o True [JStr (js ''http://api.example'')]" url_parser_on_samples
        "js ''http://api.example/verify''"] ne o1
    by (simp add: P mk_url_def https_protocol_def)
  have c6: "resolveBackendVerifyUrl url_parser_on_samples (js ''http://'') (?o False []) = Inl InvalidUrl"
    using T[of "?o False []" url_parser_on_samples "js ''http://''"] ne
    by (simp add: P)
  show ?thesis using c1 c2 c3 c4 c5 c6 by simp
qed

section \<open>Properties of the handshake\<close>

lemmas closure_defs =
  finishFailure_def finishSuccess_def safeCallback_def close_popup_def cleanup_def
  poll_callback_def timeout_callback_def handler_resume_def

lemma finishFailure_done: "done_flag st \<Longrightarrow> finishFailure cfg err st = st"
  by (simp add: finishFailure_def)

lemma finishSuccess_done: "done_flag st \<Longrightarrow> finishSuccess cfg jwt payload r st = st"
  by (simp add: finishSuccess_def)

lemma handler_not_accepted: "\<not> handler_accepts st e \<Longrightarrow> handler pg cfg st e = st"
  by (simp add: handler_def)

lemma handler_done: "done_flag st \<Longrightarrow> handler pg cfg st e = st"
  by (simp add: handler_def handler_accepts_def)

lemma run_Nil: "run pg cfg st [] = st"
  by (simp add: run_def)

lemma run_Cons: "run pg cfg st (ev # evs) = run pg cfg (step pg cfg st ev) evs"
  by (simp add: run_def)










lemma fire_done:
  assumes "done_flag st"
  shows "callbacks (fire pg cfg st ev) = callbacks st \<and> done_flag (fire pg cfg st ev)"
proof (cases ev)
  case (Message e)
  then show ?thesis using assms by (simp add: fire_def handler_done)
next
  case (BackendSettles outcome)
  then show ?thesis using assms
    by (simp add: fire_def handler_resume_def finishFailure_done finishSuccess_done
        split: option.splits sum.splits prod.splits)
qed (use assms in \<open>simp_all add: fire_def closure_defs\<close>)

lemma step_done:
  assumes "done_flag st"
  shows "callbacks (step pg cfg st ev) = callbacks st \<and> done_flag (step pg cfg st ev)"
proof (cases ev)
  case (Message e)
  then show ?thesis using assms by (simp add: step_def handler_done)
next
  case (BackendSettles outcome)
  then show ?thesis using assms
    by (simp add: step_def handler_resume_def finishFailure_done finishSuccess_done
        split: option.splits sum.splits prod.splits)
qed (use assms in \<open>simp_all add: step_def closure_defs\<close>)

lemma run_done:
  "done_flag st \<Longrightarrow> callbacks (run pg cfg st evs) = callbacks st \<and> done_flag (run pg cfg st evs)"
proof (induction evs arbitrary: st)
  case Nil
  then show ?case by (simp add: run_Nil)
next
  case (Cons ev evs)
  from step_done[OF Cons.prems, of pg cfg ev] Cons.IH[of "step pg cfg st ev"]
  show ?case by (simp add: run_Cons)
qed

text \<open>
  Claim C4.  Once \<^verbatim>\<open>done\<close> is set, a second attempt to terminate is a no-op
  (\<open>finishFailure\<close> and \<open>finishSuccess\<close> return the state as it is), and a further
  message, a timeout firing, a poll tick or the resumption of a suspended handler invokes
  no callback and leaves \<^verbatim>\<open>done\<close> set: for one event handed to the closures directly
  (\<open>fire\<close>) and for every sequence of events as the host delivers them (\<open>run\<close>).
\<close>

theorem terminal_is_idempotent:
  assumes "done_flag st"
  shows "finishFailure cfg err st = st \<and>
         finishSuccess cfg jwt payload backendResult st = st \<and>
         handler pg cfg st e = st \<and>
         timeout_callback cfg st = st \<and>
         callbacks (poll_callback st) = callbacks st \<and> done_flag (poll_callback st) \<and>
         callbacks (handler_resume cfg st outcome) = callbacks st \<and>
         done_flag (handler_resume cfg st outcome) \<and>
         callbacks (fire pg cfg st ev) = callbacks st \<and> done_flag (fire pg cfg st ev) \<and>
         callbacks (run pg cfg st evs) = callbacks st \<and> done_flag (run pg cfg st evs)"
proof -
  have "callbacks (fire pg cfg st PollTick) = callbacks st \<and> done_flag (fire pg cfg st PollTick)"
    using assms by (rule fire_done)
  moreover have "callbacks (fire pg cfg st (BackendSettles outcome)) = callbacks st \<and>
      done_flag (fire pg cfg st (BackendSettles outcome))"
    using assms by (rule fire_done)
  ultimately show ?thesis
    using assms fire_done[OF assms, of pg cfg ev] run_done[OF assms, of pg cfg evs]
    by (simp add: finishFailure_done finishSuccess_done handler_done timeout_callback_def fire_def)
qed

lemma nonempty_string_iff: "nonempty_string v \<longleftrightarrow> (\<exists>t. v = JStr t \<and> t \<noteq> [])"
  by (cases v) auto

text \<open>
  Claim C3, as amended.  The handler accepts a message and enters processing if and only
  if the handshake is neither terminated nor mid-processing, the origin is the issuer's,
  the source is the popup, and the payload is a non-null object whose \<^verbatim>\<open>token\<close> is a
  non-empty string, whose \<^verbatim>\<open>session\<close> is the active session and whose
  \<^verbatim>\<open>authenticationResponse\<close> is a non-null object.  A message that is not accepted
  leaves the state as it is and invokes no callback; an accepted one ends the handshake
  at once or leaves the handler suspended with \<^verbatim>\<open>processing\<close> set.
\<close>

theorem handler_accepts_iff:
  "(handler_accepts st e \<longleftrightarrow>
      \<not> done_flag st \<and> \<not> processing st \<and>
      msg_origin e = CHILD_ORIGIN \<and>
      msg_source e = ThePopup \<and>
      is_object (msg_data e) \<and>
      (\<exists>t. get_prop (msg_data e) (js ''token'') = JStr t \<and> t \<noteq> []) \<and>
      get_prop (msg_data e) (js ''session'') = JStr (agegateway_session st) \<and>
      is_object (get_prop (msg_data e) (js ''authenticationResponse''))) \<and>
   (\<not> handler_accepts st e \<longrightarrow> handler pg cfg st e = st) \<and>
   (handler_accepts st e \<longrightarrow>
      done_flag (handler pg cfg st e) \<or>
      (processing (handler pg cfg st e) \<and> suspended (handler pg cfg st e) \<noteq> None))"
proof (intro conjI impI)
  show "handler_accepts st e \<longleftrightarrow>
      \<not> done_flag st \<and> \<not> processing st \<and>
      msg_origin e = CHILD_ORIGIN \<and>
      msg_source e = ThePopup \<and>
      is_object (msg_data e) \<and>
      (\<exists>t. get_prop (msg_data e) (js ''token'') = JStr t \<and> t \<noteq> []) \<and>
      get_prop (msg_data e) (js ''session'') = JStr (agegateway_session st) \<and>
      is_object (get_prop (msg_data e) (js ''authenticationResponse''))"
    unfolding handler_accepts_def Let_def nonempty_string_iff by auto
  show "handler pg cfg st e = st" if "\<not> handler_accepts st e"
    using that by (rule handler_not_accepted)
  show "done_flag (handler pg cfg st e) \<or>
      (processing (handler pg cfg st e) \<and> suspended (handler pg cfg st e) \<noteq> None)"
    if "handler_accepts st e"
  proof -
    from that have nd: "\<not> done_flag st" by (auto simp: handler_accepts_def split: if_splits)
    show ?thesis using that nd
      by (auto simp: handler_def Let_def finishFailure_def finishSuccess_def safeCallback_def
          close_popup_def cleanup_def split: sum.splits option.splits)
  qed
qed

text \<open>
  Claim C10.  A message whose \<^verbatim>\<open>token\<close> is the empty string is ignored, whatever its
  other fields are (so also when origin, source and session pass): it is not accepted,
  the handler returns the state unchanged (no processing, no decoding, no callback), and
  a listening handshake keeps listening.
\<close>

theorem empty_token_message_ignored:
  assumes "get_prop (msg_data e) (js ''token'') = JStr []"
  shows "\<not> handler_accepts st e \<and> handler pg cfg st e = st \<and>
         step pg cfg st (Message e) = st \<and> fire pg cfg st (Message e) = st"
proof -
  have na: "\<not> handler_accepts st e"
    using assms by (simp add: handler_accepts_def Let_def)
  then show ?thesis by (simp add: handler_not_accepted step_def fire_def)
qed





















lemma verifyWithBackend_request_body:
  "verifyWithBackend_request pg cfg u jwt p = Inr req \<Longrightarrow> req_body req = spread_after_jwt jwt p"
  by (auto simp: verifyWithBackend_request_def Let_def split: sum.splits)

lemma handler_cases:
  assumes "handler_accepts st e"
  obtains
    (fail) err where
      "handler pg cfg st e = (finishFailure cfg err (st\<lparr> processing := True \<rparr>))\<lparr> processing := False \<rparr>"
  | (succ) jwt where
      "handler pg cfg st e =
         (finishSuccess cfg jwt
            (make_payload (include_list st) (agegateway_session st)
               (get_prop (msg_data e) (js ''authenticationResponse'')))
            JNull (st\<lparr> processing := True \<rparr>))\<lparr> processing := False \<rparr>"
  | (wait) jwt req where
      "handler pg cfg st e =
         st\<lparr> processing := True, fetches := fetches st @ [req],
             suspended := Some (jwt, make_payload (include_list st) (agegateway_session st)
               (get_prop (msg_data e) (js ''authenticationResponse''))) \<rparr>"
      "req_body req =
         spread_after_jwt jwt (make_payload (include_list st) (agegateway_session st)
               (get_prop (msg_data e) (js ''authenticationResponse'')))"
proof (cases "decode_token (page_host pg) (get_prop (msg_data e) (js ''token''))")
  case (Inl err)
  then show ?thesis using assms fail by (simp add: handler_def)
next
  case (Inr jwt)
  show ?thesis
  proof (cases "configured_backend (cfg_backendVerifyUrl cfg)")
    case None
    then show ?thesis using assms Inr succ by (simp add: handler_def)
  next
    case (Some u)
    let ?p = "make_payload (include_list st) (agegateway_session st)
               (get_prop (msg_data e) (js ''authenticationResponse''))"
    show ?thesis
    proof (cases "verifyWithBackend_request pg cfg u jwt ?p")
      case (Inl perr)
      then show ?thesis using assms Inr Some fail by (simp add: handler_def)
    next
      case req: (Inr req)
      from verifyWithBackend_request_body[OF req] wait[of jwt req] assms Inr Some req
      show ?thesis by (simp add: handler_def)
    qed
  qed
qed

lemma payload_inv_handler:
  assumes "payload_inv inc sess st"
  shows "payload_inv inc sess (handler pg cfg st e)"
proof (cases "handler_accepts st e")
  case False
  then show ?thesis using assms by (simp add: handler_not_accepted)
next
  case True
  then have ar: "is_object (get_prop (msg_data e) (js ''authenticationResponse''))"
    by (auto simp: handler_accepts_def Let_def split: if_splits)
  from True show ?thesis
  proof (cases rule: handler_cases[of st e pg cfg])
    case (fail err)
    then show ?thesis using assms by (auto simp: payload_inv_def closure_defs)
  next
    case (succ jwt)
    then show ?thesis using assms ar by (auto simp: payload_inv_def closure_defs)
  next
    case (wait jwt req)
    then show ?thesis using assms ar by (auto simp: payload_inv_def)
  qed
qed

lemma payload_inv_handler_resume:
  assumes "payload_inv inc sess st"
  shows "payload_inv inc sess (handler_resume cfg st outcome)"
  using assms
  by (auto simp: payload_inv_def closure_defs
      split: sum.splits option.splits prod.splits)

lemma payload_inv_step:
  assumes "payload_inv inc sess st"
  shows "payload_inv inc sess (step pg cfg st ev)"
proof (cases ev)
  case (Message e)
  then show ?thesis using assms by (simp add: step_def payload_inv_handler)
next
  case (BackendSettles outcome)
  then show ?thesis using assms by (simp add: step_def payload_inv_handler_resume)
qed (use assms in \<open>auto simp: step_def payload_inv_def closure_defs\<close>)

lemma payload_inv_run:
  "payload_inv inc sess st \<Longrightarrow> payload_inv inc sess (run pg cfg st evs)"
  by (induction evs arbitrary: st) (simp_all add: run_Nil run_Cons payload_inv_step)

lemma launch_payload_inv:
  "launchAgeGate pg cfg = Inr st0 \<Longrightarrow> payload_inv (include_list st0) (agegateway_session st0) st0"
  by (auto simp: launchAgeGate_def payload_inv_def safeCallback_def no_handshake_def Let_def
      split: if_splits sum.splits)

lemma payload_no_session_field:
  "get_prop (make_payload inc sess ar) (js ''session'') = JUndefined"
  by (simp add: make_payload_def js_simps)

lemma payload_fields:
  "get_prop (make_payload inc sess ar) (js ''include'') = include_value inc"
  "get_prop (make_payload inc sess ar) (js ''agegateway_session'') = JStr sess"
  "get_prop (make_payload inc sess ar) (js ''authenticationResponse'') = ar"
  by (simp_all add: make_payload_def js_simps)

lemma body_fields:
  "spread_after_jwt jwt (make_payload inc sess ar) =
     JObj [(js ''jwt'', JStr jwt), (js ''include'', include_value inc),
           (js ''agegateway_session'', JStr sess), (js ''authenticationResponse'', ar)]"
  by (simp add: make_payload_def js_simps)

lemma body_json_keys:
  "is_object ar \<Longrightarrow>
   json_keys (spread_after_jwt jwt (make_payload inc sess ar)) =
     js ''jwt'' # (if inc = None then [] else [js ''include'']) @
     [js ''agegateway_session'', js ''authenticationResponse'']"
  by (cases ar) (auto simp: body_fields include_value_def split: option.splits)

text \<open>
  Claim C2, as amended.  In every execution, the payload handed to the success callback
  is the object with the fields \<^verbatim>\<open>include\<close>, \<^verbatim>\<open>agegateway_session\<close> (the active
  session) and \<^verbatim>\<open>authenticationResponse\<close>; it has no field named \<^verbatim>\<open>session\<close>.  The
  object serialised as the body of the backend request has \<^verbatim>\<open>jwt\<close> followed by these
  same fields, and its JSON has the keys \<^verbatim>\<open>jwt\<close>, \<^verbatim>\<open>include\<close> (unless the include list
  is undefined), \<^verbatim>\<open>agegateway_session\<close> and \<^verbatim>\<open>authenticationResponse\<close>.
\<close>

theorem payload_names_agegateway_session:
  assumes "launchAgeGate pg cfg = Inr st0"
  shows
   "(\<forall>jwt payload r. OnSuccess jwt payload r \<in> set (callbacks (run pg cfg st0 evs)) \<longrightarrow>
       (\<exists>ar. is_object ar \<and>
          payload = JObj [(js ''include'', include_value (include_list st0)),
                          (js ''agegateway_session'', JStr (agegateway_session st0)),
                          (js ''authenticationResponse'', ar)]) \<and>
       get_prop payload (js ''session'') = JUndefined) \<and>
    (\<forall>req \<in> set (fetches (run pg cfg st0 evs)).
       (\<exists>jwt ar. is_object ar \<and>
          req_body req = JObj [(js ''jwt'', JStr jwt),
                               (js ''include'', include_value (include_list st0)),
                               (js ''agegateway_session'', JStr (agegateway_session st0)),
                               (js ''authenticationResponse'', ar)]) \<and>
       json_keys (req_body req) =
         js ''jwt'' # (if include_list st0 = None then [] else [js ''include'']) @
         [js ''agegateway_session'', js ''authenticationResponse'']) \<and>
    (callbacks (run pg cfg st0 evs) \<noteq> [] \<or> fetches (run pg cfg st0 evs) \<noteq> [] \<longrightarrow>
       agegateway_session (run pg cfg st0 evs) = agegateway_session st0 \<and>
       include_list (run pg cfg st0 evs) = include_list st0)"
proof -
  let ?st = "run pg cfg st0 evs"
  let ?inc = "include_list st0" and ?sess = "agegateway_session st0"
  have inv: "payload_inv ?inc ?sess ?st"
    using launch_payload_inv[OF assms] by (rule payload_inv_run)
  have a: "(\<exists>ar. is_object ar \<and>
          p = JObj [(js ''include'', include_value ?inc),
                          (js ''agegateway_session'', JStr ?sess),
                          (js ''authenticationResponse'', ar)]) \<and>
       get_prop p (js ''session'') = JUndefined"
    if "OnSuccess jwt p r \<in> set (callbacks ?st)" for jwt p r
  proof -
    from inv that obtain ar where ar: "is_object ar" "p = make_payload ?inc ?sess ar"
      unfolding payload_inv_def by blast
    then show ?thesis
      using payload_no_session_field[of ?inc ?sess ar] by (auto simp: make_payload_def)
  qed
  have b: "(\<exists>jwt ar. is_object ar \<and>
          req_body req = JObj [(js ''jwt'', JStr jwt),
                               (js ''include'', include_value ?inc),
                               (js ''agegateway_session'', JStr ?sess),
                               (js ''authenticationResponse'', ar)]) \<and>
       json_keys (req_body req) =
         js ''jwt'' # (if ?inc = None then [] else [js ''include'']) @
         [js ''agegateway_session'', js ''authenticationResponse'']"
    if "req \<in> set (fetches ?st)" for req
  proof -
    from inv that obtain jwt ar where ar: "is_object ar"
      "req_body req = spread_after_jwt jwt (make_payload ?inc ?sess ar)"
      unfolding payload_inv_def by blast
    then show ?thesis
      using body_fields[of jwt ?inc ?sess ar] body_json_keys[OF ar(1), of jwt ?inc ?sess]
      by auto
  qed
  have c: "agegateway_session ?st = ?sess \<and> include_list ?st = ?inc"
    using inv by (simp add: payload_inv_def)
  show ?thesis using a b c by blast
qed

section \<open>The sample launch, evaluated\<close>

lemma sample_normalizeSession:
  "normalizeSession sample_crypto (JStr sample_session) no_policy_limits = Inr sample_session"
proof -
  have t: "trim sample_session = sample_session"
    by (simp add: trim_def sample_session_def js_simps is_js_space_def)
  have u: "isUuid sample_session"
    by (simp add: isUuid_def UUID_RE_unfold sample_session_def js_simps is_hex_digit_def)
  have l: "length sample_session = 36" "sample_session \<noteq> []"
    by (simp_all add: sample_session_def js_simps)
  show ?thesis
    by (simp add: normalizeSession_def default_policy_lim t u l)
qed

lemma sample_sanitizeInclude:
  "sanitizeInclude (JArr [JStr (js ''session'')]) no_policy_limits = Some [js ''session'']"
  by (simp add: sanitizeInclude_def default_policy_lim trim_def js_simps is_js_space_def)



lemma sample_message_props:
  "msg_origin (sample_message t) = CHILD_ORIGIN"
  "msg_source (sample_message t) = ThePopup"
  "is_object (msg_data (sample_message t))"
  "get_prop (msg_data (sample_message t)) (js ''token'') = JStr t"
  "get_prop (msg_data (sample_message t)) (js ''session'') = JStr sample_session"
  "get_prop (msg_data (sample_message t)) (js ''authenticationResponse'') = JObj [(js ''id'', JStr (js ''cred''))]"
  by (simp_all add: sample_message_def js_simps)

lemma sample_started_fields:
  "agegateway_session sample_started = sample_session"
  "include_list sample_started = Some [js ''session'']"
  "\<not> done_flag sample_started" "\<not> processing sample_started"
  "listening sample_started" "pollId sample_started" "\<not> timeoutId sample_started"
  "callbacks sample_started = []" "fetches sample_started = []" "suspended sample_started = None"
  "popup sample_started = PopupOpen"
  by (simp_all add: sample_started_def no_handshake_def)

lemma sample_accepts: "t \<noteq> [] \<Longrightarrow> handler_accepts sample_started (sample_message t)"
  by (simp add: handler_accepts_def sample_message_props sample_started_fields)

lemma handler_sample:
  "handler sample_page sample_config sample_started (sample_message sample_token) = sample_finished"
proof -
  have ne: "sample_token \<noteq> []" by (simp add: sample_token_def js_simps)
  have h: "page_host sample_page = browser_host" by (simp add: sample_page_def)
  have b: "configured_backend (cfg_backendVerifyUrl sample_config) = None"
    "cfg_onSuccess sample_config"
    by (simp_all add: sample_config_def)
  show ?thesis
    by (simp add: handler_def sample_accepts[OF ne] sample_message_props h sample_decode b
        sample_started_fields finishSuccess_def safeCallback_def close_popup_def cleanup_def
        sample_finished_def sample_payload_def)
qed







section \<open>The claims about the handshake at the sample launch\<close>

lemma run_sample_success:
  "run sample_page sample_config sample_started [Message (sample_message sample_token)] = sample_finished"
  by (simp add: run_def step_def sample_started_fields handler_sample)

lemma sample_finished_fields:
  "done_flag sample_finished" "\<not> listening sample_finished" "\<not> pollId sample_finished"
  "\<not> timeoutId sample_finished" "popup sample_finished = PopupClosed"
  "callbacks sample_finished = [OnSuccess (js ''a.b.c'') sample_payload JNull]"
  "suspended sample_finished = None"
  by (simp_all add: sample_finished_def sample_started_def no_handshake_def)

text \<open>
  Claim C4 at the sample launch: after the success callback, nothing more is invoked.
\<close>

theorem terminal_is_idempotent_witness:
  "run sample_page sample_config sample_started [Message (sample_message sample_token)] = sample_finished \<and>
   done_flag sample_finished \<and>
   finishFailure sample_config TimedOut sample_finished = sample_finished \<and>
   finishSuccess sample_config (js ''a.b.c'') sample_payload JNull sample_finished = sample_finished \<and>
   handler sample_page sample_config sample_finished (sample_message sample_token) = sample_finished \<and>
   timeout_callback sample_config sample_finished = sample_finished \<and>
   callbacks (fire sample_page sample_config sample_finished PollTick) =
     [OnSuccess (js ''a.b.c'') sample_payload JNull] \<and>
   callbacks (run sample_page sample_config sample_finished
      [Message (sample_message sample_token), TimeoutFires, PollTick, UserClosesPopup,
       BackendSettles FetchRejected]) = [OnSuccess (js ''a.b.c'') sample_payload JNull]"
  using terminal_is_idempotent[OF sample_finished_fields(1), of sample_config TimedOut "js ''a.b.c''"
      sample_payload JNull sample_page "sample_message sample_token" FetchRejected PollTick
      "[Message (sample_message sample_token), TimeoutFires, PollTick, UserClosesPopup,
       BackendSettles FetchRejected]"]
    run_sample_success sample_finished_fields
  by simp

text \<open>
  Claim C10 at the sample launch: the well-formed message with an empty token.
\<close>

theorem empty_token_message_ignored_witness:
  "msg_origin (sample_message []) = CHILD_ORIGIN \<and>
   msg_source (sample_message []) = ThePopup \<and>
   get_prop (msg_data (sample_message [])) (js ''session'') = JStr (agegateway_session sample_started) \<and>
   get_prop (msg_data (sample_message [])) (js ''token'') = JStr [] \<and>
   handler sample_page sample_config sample_started (sample_message []) = sample_started \<and>
   step sample_page sample_config sample_started (Message (sample_message [])) = sample_started \<and>
   listening sample_started \<and> callbacks sample_started = []"
  using empty_token_message_ignored[of "sample_message []" sample_started sample_page sample_config]
    sample_message_props[of "[]"] sample_started_fields
  by simp

text \<open>
  Claim C3 as stated fails: this message meets every condition of the claim (its token
  is a string, the empty one), and the handler does not accept it.
\<close>

theorem handler_empty_token_counterexample:
  "\<not> done_flag sample_started \<and> \<not> processing sample_started \<and>
   msg_origin (sample_message []) = CHILD_ORIGIN \<and>
   msg_source (sample_message []) = ThePopup \<and>
   is_object (msg_data (sample_message [])) \<and>
   get_prop (msg_data (sample_message [])) (js ''token'') = JStr [] \<and>
   get_prop (msg_data (sample_message [])) (js ''session'') = JStr (agegateway_session sample_started) \<and>
   is_object (get_prop (msg_data (sample_message [])) (js ''authenticationResponse'')) \<and>
   \<not> handler_accepts sample_started (sample_message []) \<and>
   handler sample_page sample_config sample_started (sample_message []) = sample_started"
proof -
  have "\<not> handler_accepts sample_started (sample_message [])"
    by (simp add: handler_accepts_def sample_message_props sample_started_fields)
  then show ?thesis
    using sample_message_props[of "[]"] sample_started_fields
    by (simp add: handler_not_accepted)
qed

text \<open>
  Claim C3 as amended, at an accepted message and at one from another origin.
\<close>

theorem handler_accepts_iff_witness:
  "handler_accepts sample_started (sample_message sample_token) \<and>
   done_flag (handler sample_page sample_config sample_started (sample_message sample_token)) \<and>
   \<not> handler_accepts sample_started
       ((sample_message sample_token)\<lparr> msg_origin := js ''https://evil.example'' \<rparr>) \<and>
   handler sample_page sample_config sample_started
       ((sample_message sample_token)\<lparr> msg_origin := js ''https://evil.example'' \<rparr>) = sample_started"
proof -
  have ne: "sample_token \<noteq> []" by (simp add: sample_token_def js_simps)
  have o: "js ''https://evil.example'' \<noteq> CHILD_ORIGIN"
    by (simp add: CHILD_ORIGIN_def js_simps)
  have a: "handler_accepts sample_started (sample_message sample_token)"
    using handler_accepts_iff[of sample_started "sample_message sample_token" sample_page sample_config]
      sample_message_props[of sample_token] sample_started_fields ne
    by simp
  have d: "done_flag (handler sample_page sample_config sample_started (sample_message sample_token))"
    using handler_accepts_iff[of sample_started "sample_message sample_token" sample_page sample_config]
      a handler_sample sample_finished_fields
    by simp
  have n: "\<not> handler_accepts sample_started
       ((sample_message sample_token)\<lparr> msg_origin := js ''https://evil.example'' \<rparr>)"
    using handler_accepts_iff[of sample_started
        "(sample_message sample_token)\<lparr> msg_origin := js ''https://evil.example'' \<rparr>"
        sample_page sample_config] o
    by simp
  have u: "handler sample_page sample_config sample_started
       ((sample_message sample_token)\<lparr> msg_origin := js ''https://evil.example'' \<rparr>) = sample_started"
    using handler_accepts_iff[of sample_started
        "(sample_message sample_token)\<lparr> msg_origin := js ''https://evil.example'' \<rparr>"
        sample_page sample_config] n
    by simp
  show ?thesis using a d n u by simp
qed





lemma launch_backend: "launchAgeGate sample_page backend_config = Inr sample_started"
  by (simp add: launchAgeGate_def sample_page_def backend_config_def sample_config_def
      sample_started_def sample_normalizeSession sample_sanitizeInclude)

lemma sample_resolve:
  "resolveBackendVerifyUrl url_parser_on_samples (js ''/api/verify'')
     \<lparr> pageHref = js ''https://rp.example/path'', pageOrigin = js ''https://rp.example'',
       allowCrossOrigin = False, allowedOrigins = JArr [] \<rparr>
     = Inr (js ''https://rp.example/api/verify'')"
proof -
  have ne: "js ''https://rp.example/path'' \<noteq> []" "js ''https://rp.example'' \<noteq> []"
    by (simp_all add: js_simps)
  show ?thesis
    using ne
    by (simp add: resolveBackendVerifyUrl_def parse_rp parse_rel mk_url_def https_protocol_def js_append)
qed

lemma sample_verifyWithBackend_request:
  "verifyWithBackend_request sample_page backend_config (js ''/api/verify'') (js ''a.b.c'') sample_payload
     = Inr sample_request"
proof -
  have b: "spread_after_jwt (js ''a.b.c'') sample_payload = req_body sample_request"
    unfolding sample_payload_def by (simp add: body_fields sample_request_def include_value_def)
  have p: "page_url_parser sample_page = url_parser_on_samples"
    "location_href sample_page = js ''https://rp.example/path''"
    "location_origin sample_page = js ''https://rp.example''"
    by (simp_all add: sample_page_def)
  have c: "cfg_backendVerifyAllowedOrigins backend_config = JArr []"
    "\<not> cfg_backendVerifyAllowCrossOrigin backend_config"
    "cfg_backendExtraHeaders backend_config = []"
    by (simp_all add: backend_config_def sample_config_def)
  show ?thesis
    by (simp add: verifyWithBackend_request_def p c sample_resolve b request_headers_def)
       (simp add: sample_request_def)
qed

lemma handler_backend:
  "handler sample_page backend_config sample_started (sample_message sample_token) =
     sample_started\<lparr> processing := True, fetches := [sample_request],
                     suspended := Some (js ''a.b.c'', sample_payload) \<rparr>"
proof -
  have ne: "sample_token \<noteq> []" by (simp add: sample_token_def js_simps)
  have h: "page_host sample_page = browser_host" by (simp add: sample_page_def)
  have b: "configured_backend (cfg_backendVerifyUrl backend_config) = Some (js ''/api/verify'')"
    by (simp add: backend_config_def js_simps)
  have p: "make_payload (Some [js ''session'']) sample_session (JObj [(js ''id'', JStr (js ''cred''))])
      = sample_payload"
    by (simp add: sample_payload_def)
  show ?thesis
    by (simp add: handler_def sample_accepts[OF ne] sample_message_props h sample_decode b
        sample_started_fields p sample_verifyWithBackend_request)
qed

lemma run_backend_request:
  "run sample_page backend_config sample_started [Message (sample_message sample_token)] =
     sample_started\<lparr> processing := True, fetches := [sample_request],
                     suspended := Some (js ''a.b.c'', sample_payload) \<rparr>"
  by (simp add: run_def step_def sample_started_fields handler_backend)

lemma run_backend_settled:
  "callbacks (run sample_page backend_config sample_started
      [Message (sample_message sample_token), BackendSettles (FetchResponded sample_response)]) =
     [OnSuccess (js ''a.b.c'') sample_payload (JObj [(js ''ok'', JBool True)])]"
proof -
  have r: "verifyWithBackend_result (FetchResponded sample_response) = Inr (JObj [(js ''ok'', JBool True)])"
    by (simp add: verifyWithBackend_result_def sample_response_def)
  have c: "cfg_onSuccess backend_config" by (simp add: backend_config_def sample_config_def)
  show ?thesis
    by (simp add: run_def step_def sample_started_fields handler_backend handler_resume_def r
        finishSuccess_def safeCallback_def close_popup_def cleanup_def c)
qed


text \<open>
  Claim C2 as stated fails: neither the payload of the success callback nor the body of
  the backend request has a field named \<^verbatim>\<open>session\<close>; the session is in
  \<^verbatim>\<open>agegateway_session\<close>.
\<close>

theorem payload_session_field_counterexample:
  "callbacks (run sample_page sample_config sample_started [Message (sample_message sample_token)]) =
     [OnSuccess (js ''a.b.c'') sample_payload JNull] \<and>
   get_prop sample_payload (js ''session'') = JUndefined \<and>
   get_prop sample_payload (js ''agegateway_session'') = JStr (agegateway_session sample_started) \<and>
   fetches (run sample_page backend_config sample_started [Message (sample_message sample_token)]) =
     [sample_request] \<and>
   get_prop (req_body sample_request) (js ''session'') = JUndefined \<and>
   get_prop (req_body sample_request) (js ''agegateway_session'') = JStr (agegateway_session sample_started) \<and>
   json_keys (req_body sample_request) =
     [js ''jwt'', js ''include'', js ''agegateway_session'', js ''authenticationResponse'']"
proof -
  have b: "req_body sample_request = spread_after_jwt (js ''a.b.c'') sample_payload"
    unfolding sample_payload_def by (simp add: body_fields sample_request_def include_value_def)
  have k: "json_keys (req_body sample_request) =
     [js ''jwt'', js ''include'', js ''agegateway_session'', js ''authenticationResponse'']"
    unfolding b sample_payload_def by (subst body_json_keys) simp_all
  have s: "get_prop (req_body sample_request) (js ''session'') = JUndefined"
    "get_prop (req_body sample_request) (js ''agegateway_session'') = JStr sample_session"
    by (simp_all add: sample_request_def js_simps)
  show ?thesis
    using k s
    by (simp add: run_sample_success sample_finished_fields run_backend_request
        sample_started_fields)
       (simp add: sample_payload_def payload_no_session_field payload_fields)
qed

text \<open>
  Claim C2 as amended, at the sample launch with a backend configured.
\<close>

theorem payload_names_agegateway_session_witness:
  "launchAgeGate sample_page backend_config = Inr sample_started \<and>
   callbacks (run sample_page backend_config sample_started
      [Message (sample_message sample_token), BackendSettles (FetchResponded sample_response)]) =
     [OnSuccess (js ''a.b.c'') sample_payload (JObj [(js ''ok'', JBool True)])] \<and>
   (\<exists>ar. is_object ar \<and>
      sample_payload = JObj [(js ''include'', include_value (include_list sample_started)),
                             (js ''agegateway_session'', JStr (agegateway_session sample_started)),
                             (js ''authenticationResponse'', ar)]) \<and>
   get_prop sample_payload (js ''session'') = JUndefined \<and>
   fetches (run sample_page backend_config sample_started [Message (sample_message sample_token)]) =
     [sample_request] \<and>
   json_keys (req_body sample_request) =
     js ''jwt'' # (if include_list sample_started = None then [] else [js ''include'']) @
     [js ''agegateway_session'', js ''authenticationResponse'']"
proof -
  note T = payload_names_agegateway_session[OF launch_backend]
  have a: "(\<exists>ar. is_object ar \<and>
      sample_payload = JObj [(js ''include'', include_value (include_list sample_started)),
                             (js ''agegateway_session'', JStr (agegateway_session sample_started)),
                             (js ''authenticationResponse'', ar)]) \<and>
   get_prop sample_payload (js ''session'') = JUndefined"
    using T[of "[Message (sample_message sample_token), BackendSettles (FetchResponded sample_response)]"]
    unfolding run_backend_settled by simp
  have b: "json_keys (req_body sample_request) =
     js ''jwt'' # (if include_list sample_started = None then [] else [js ''include'']) @
     [js ''agegateway_session'', js ''authenticationResponse'']"
    using T[of "[Message (sample_message sample_token)]"]
    unfolding run_backend_request by simp
  show ?thesis
    using a b launch_backend run_backend_settled
    by (simp add: run_backend_request)
qed

section \<open>The round trip of the token pipeline\<close>

text \<open>
  Claim C6, as amended.  Let \<open>s\<close> be a non-empty credential string that the host's UTF-8
  encoder \<open>enc\<close> and decoder reproduce, \<open>utf8ToHex enc s\<close> its hex (at most 512000
  characters), \<open>gz\<close> a gzip compression of the hex (bytes that \<^verbatim>\<open>pako.ungzip\<close> inflates
  to it) and \<open>bytesToB64url gz\<close> the token (at most 64000 characters).  On a host with
  the standard \<^verbatim>\<open>atob\<close>, \<open>b64urlToBytes\<close> gives back the compressed bytes,
  \<open>hexToUtf8String\<close> gives back \<open>s\<close> from the hex, and the handler's decode sequence
  gives back \<open>s\<close> from the token.
\<close>

theorem token_round_trip:
  assumes atob: "host_atob h = Some atob"
    and gzip: "pako_ungzip h gz = Some (utf8ToHex enc s)"
    and utf8: "host_utf8_decode h (enc s) = s"
    and ne: "s \<noteq> []" "enc s \<noteq> []" "gz \<noteq> []"
    and sizes: "length (bytesToB64url gz) \<le> 64000" "length (utf8ToHex enc s) \<le> 512000"
  shows "b64urlToBytes h (JStr (bytesToB64url gz)) no_token_limits = Inr gz \<and>
         hexToUtf8String h (JStr (utf8ToHex enc s)) no_token_limits = Inr s \<and>
         decode_token h (JStr (bytesToB64url gz)) = Inr s"
proof -
  have "length gz \<le> (4 * length gz + 2) div 3" by arith
  then have lg: "length gz \<le> 64000" using sizes(1) by (simp add: length_bytesToB64url)
  have b: "b64urlToBytes h (JStr (bytesToB64url gz)) no_token_limits = Inr gz"
    using sizes(1) lg
    by (intro b64urlToBytes_bytesToB64url[OF atob ne(3)]) (simp_all add: default_token_lim)
  have x: "hexToUtf8String h (JStr (utf8ToHex enc s)) no_token_limits = Inr s"
    using hexToUtf8String_utf8ToHex[where enc = enc and s = s and limits = no_token_limits and h = h]
      ne(2) sizes(2) utf8
    by (simp add: default_token_lim)
  show ?thesis using b x gzip ne(1)
    by (simp add: decode_token_def)
qed

lemma length_gzip_samples: "length gzip_of_empty = 20" "length gzip_of_hex_abc = 28"
  "gzip_of_empty \<noteq> []" "gzip_of_hex_abc \<noteq> []" "gzip_of_empty \<noteq> gzip_of_hex_abc"
  by (simp_all add: gzip_of_empty_def gzip_of_hex_abc_def)

text \<open>
  Claim C6 as stated, for an arbitrary credential string, fails at the empty string: its
  hex is empty, the token decodes to the compressed bytes and these inflate to the empty
  hex, which \<open>hexToUtf8String\<close> rejects (\<^verbatim>\<open>hex must be non-empty\<close>).
\<close>

theorem empty_credential_counterexample:
  "utf8ToHex utf8_encode [] = [] \<and>
   pako_ungzip browser_host gzip_of_empty = Some (utf8ToHex utf8_encode []) \<and>
   b64urlToBytes browser_host (JStr (bytesToB64url gzip_of_empty)) no_token_limits = Inr gzip_of_empty \<and>
   hexToUtf8String browser_host (JStr (utf8ToHex utf8_encode [])) no_token_limits = Inl HexEmpty \<and>
   decode_token browser_host (JStr (bytesToB64url gzip_of_empty)) = Inl (TokenError HexEmpty)"
proof -
  have h: "utf8ToHex utf8_encode [] = []" by (simp add: utf8ToHex_def)
  have u: "pako_ungzip browser_host gzip_of_empty = Some []"
    by (simp add: browser_host_def pako_ungzip_on_samples_def)
  have a: "host_atob browser_host = Some atob" by (simp add: browser_host_def)
  have b: "b64urlToBytes browser_host (JStr (bytesToB64url gzip_of_empty)) no_token_limits = Inr gzip_of_empty"
    by (intro b64urlToBytes_bytesToB64url[OF a])
       (simp_all add: length_gzip_samples length_bytesToB64url default_token_lim)
  have x: "hexToUtf8String browser_host (JStr []) no_token_limits = Inl HexEmpty"
    by (simp add: hexToUtf8String_def)
  show ?thesis using h u b x by (simp add: decode_token_def)
qed

lemma utf8ToHex_abc: "utf8ToHex utf8_encode (js ''a.b.c'') = js ''612e622e63''"
  by (simp add: utf8ToHex_def js_simps utf8_bytes_of_code_point_def byte_to_hex2_def hex_digit_lower_def)

lemma utf8_encode_abc: "utf8_encode (js ''a.b.c'') = [0x61, 0x2e, 0x62, 0x2e, 0x63]"
  by (simp add: js_simps utf8_bytes_of_code_point_def)

lemma utf8_decode_abc: "host_utf8_decode browser_host (utf8_encode (js ''a.b.c'')) = js ''a.b.c''"
  unfolding utf8_encode_abc
  by (simp add: host_utf8_decode_def browser_host_def TextDecoder_decode_def
      code_point_to_utf16_def js_simps)

text \<open>
  Claim C6 as amended, at the credential \<^verbatim>\<open>a.b.c\<close>.
\<close>

theorem token_round_trip_witness:
  "host_atob browser_host = Some atob \<and>
   pako_ungzip browser_host gzip_of_hex_abc = Some (utf8ToHex utf8_encode (js ''a.b.c'')) \<and>
   host_utf8_decode browser_host (utf8_encode (js ''a.b.c'')) = js ''a.b.c'' \<and>
   length (bytesToB64url gzip_of_hex_abc) \<le> 64000 \<and>
   length (utf8ToHex utf8_encode (js ''a.b.c'')) \<le> 512000 \<and>
   b64urlToBytes browser_host (JStr (bytesToB64url gzip_of_hex_abc)) no_token_limits = Inr gzip_of_hex_abc \<and>
   hexToUtf8String browser_host (JStr (utf8ToHex utf8_encode (js ''a.b.c''))) no_token_limits = Inr (js ''a.b.c'') \<and>
   decode_token browser_host (JStr (bytesToB64url gzip_of_hex_abc)) = Inr (js ''a.b.c'')"
proof -
  have a: "host_atob browser_host = Some atob" by (simp add: browser_host_def)
  have g: "pako_ungzip browser_host gzip_of_hex_abc = Some (utf8ToHex utf8_encode (js ''a.b.c''))"
    by (simp add: utf8ToHex_abc sample_ungzip)
  have n: "js ''a.b.c'' \<noteq> []" "utf8_encode (js ''a.b.c'') \<noteq> []" "gzip_of_hex_abc \<noteq> []"
    by (simp_all add: utf8_encode_abc length_gzip_samples) (simp add: js_simps)
  have l: "length (bytesToB64url gzip_of_hex_abc) \<le> 64000"
    "length (utf8ToHex utf8_encode (js ''a.b.c'')) \<le> 512000"
    by (simp_all add: length_bytesToB64url length_gzip_samples utf8ToHex_abc) (simp add: js_simps)
  show ?thesis
    using token_round_trip[OF a g utf8_decode_abc n l] a g utf8_decode_abc l by simp
qed

end
